theory Spec2Isabelle
  imports Main "HOL-Library.Sublist" "HOL-Library.Multiset"
begin

section \<open>Values shared by the middleware and the storage adapter\<close>

text \<open>
  JavaScript values that travel through the code as \<open>any\<close>: the request body, the usage
  payload and the JSON bodies of the error responses.
\<close>

datatype json =
    JUndefined
  | JNull
  | JBool bool
  | JNum int
  | JStr string
  | JArr "json list"
  | JObj "(string \<times> json) list"

text \<open>A thrown value (a rejected promise), kept with its string rendering \<open>`${error}`\<close>.\<close>

datatype exn = Exn string

fun render :: "exn \<Rightarrow> string" where
  "render (Exn s) = s"

text \<open>
  \<open>String.prototype.startsWith\<close>, \<open>endsWith\<close> and \<open>substring(n)\<close> for \<open>n\<close> within the
  string or beyond it.
\<close>

definition startsWith :: "string \<Rightarrow> string \<Rightarrow> bool" where
  "startsWith s p = (take (length p) s = p)"

definition endsWith :: "string \<Rightarrow> string \<Rightarrow> bool" where
  "endsWith s p = (length p \<le> length s \<and> drop (length s - length p) s = p)"

definition substring :: "string \<Rightarrow> nat \<Rightarrow> string" where
  "substring s n = drop n s"

text \<open>\<open>Number.prototype.toString()\<close> on a non-negative integer: its decimal digits.\<close>

definition digit :: "nat \<Rightarrow> char" where
  "digit d = ''0123456789'' ! d"

fun toString :: "nat \<Rightarrow> string" where
  "toString n = (if n < 10 then [digit n] else toString (n div 10) @ [digit (n mod 10)])"

declare toString.simps [simp del]

section \<open>The relational store\<close>

text \<open>
  Modelled from the spec: the schema module \<open>@shared/schema\<close>, which declares the tables
  and their row types, is not among the sources. The spec has the entities as flat
  records with a surrogate numeric or string identifier, an API key as a token string
  with an active flag, an integration as one permitted domain of a key, and a usage
  record as endpoint, status and payload. Each row type below carries the columns the
  adapter and the middleware read or write, under the names the code uses, and every other
  column of the table in one field, \<open>rest\<close>.
\<close>

type_synonym columns = "(string \<times> json) list"

record portfolio_item =
  pi_id :: int
  pi_rest :: columns

record blog_post =
  bp_id :: int
  bp_publishDate :: int
  bp_rest :: columns

record agent =
  ag_agentId :: string
  ag_userId :: string
  ag_status :: string
  ag_updatedAt :: int
  ag_rest :: columns

record api_key =
  ak_id :: int
  ak_key :: string
  ak_userId :: string
  ak_active :: bool
  ak_lastUsed :: "int option"
  ak_rest :: columns

record agent_integration =
  ai_id :: int
  ai_agentId :: string
  ai_apiKeyId :: int
  ai_domain :: string
  ai_active :: bool
  ai_updatedAt :: int
  ai_rest :: columns

text \<open>
  A usage row holds the four columns \<open>trackApiUsage\<close> supplies. The columns the store
  fills in by itself on insertion are left out: no part of the code reads them.
\<close>

record api_usage =
  au_apiKeyId :: int
  au_endpoint :: string
  au_statusCode :: string
  au_requestPayload :: json

record tixae_api_endpoint =
  te_id :: int
  te_name :: string
  te_rest :: columns

record tixae_agent_template =
  tt_id :: int
  tt_name :: string
  tt_rest :: columns

text \<open>
  Modelled from the spec: the module \<open>./db\<close>, which exports the handle \<open>db\<close>, is not among
  the sources; the spec has it as a relational store reached through a query builder. The
  handle is the tables, each in the store's own row order, and \<open>fault\<close>, the error with
  which the driver rejects every statement while the store cannot be reached (\<open>None\<close>
  when it can).
\<close>

record database =
  fault :: "exn option"
  portfolioItems :: "portfolio_item list"
  blogPosts :: "blog_post list"
  agents :: "agent list"
  apiKeys :: "api_key list"
  agentIntegrations :: "agent_integration list"
  apiUsage :: "api_usage list"
  tixaeApiEndpoints :: "tixae_api_endpoint list"
  tixaeAgentTemplates :: "tixae_agent_template list"

subsection \<open>Statements of the query builder\<close>

text \<open>Awaiting a statement: the rows it yields, or the driver's error.\<close>

definition await :: "database \<Rightarrow> 'a \<Rightarrow> exn + 'a" where
  "await d r = (case fault d of Some e \<Rightarrow> Inl e | None \<Rightarrow> Inr r)"

text \<open>\<open>select().from(t).where(p)\<close>: the rows that satisfy \<open>p\<close>, in table order.\<close>

definition select_where :: "('r \<Rightarrow> bool) \<Rightarrow> 'r list \<Rightarrow> 'r list" where
  "select_where p rows = filter p rows"

text \<open>
  \<open>select().from(t).orderBy(desc(c))\<close>: all rows, the greatest \<open>c\<close> first. The store
  decides how rows with equal \<open>c\<close> follow each other; this definition fixes one such order.
\<close>

definition order_by_desc :: "('r \<Rightarrow> int) \<Rightarrow> 'r list \<Rightarrow> 'r list" where
  "order_by_desc c rows = rev (sort_key c rows)"

text \<open>
  \<open>update(t).set(f).where(p).returning()\<close>: the table with \<open>f\<close> applied to every row that
  satisfies \<open>p\<close>, and the rows so changed.
\<close>

definition update_set_where :: "('r \<Rightarrow> 'r) \<Rightarrow> ('r \<Rightarrow> bool) \<Rightarrow> 'r list \<Rightarrow> 'r list" where
  "update_set_where f p rows = map (\<lambda>r. if p r then f r else r) rows"

definition returning :: "('r \<Rightarrow> 'r) \<Rightarrow> ('r \<Rightarrow> bool) \<Rightarrow> 'r list \<Rightarrow> 'r list" where
  "returning f p rows = map f (filter p rows)"

text \<open>\<open>xs.length > 0 ? xs[0] : undefined\<close>\<close>

definition first_row :: "'r list \<Rightarrow> 'r option" where
  "first_row xs = (if length xs > 0 then Some (xs ! 0) else None)"

subsection \<open>PgStorage\<close>

text \<open>
  The getters, the updates and \<open>recordApiUsage\<close>, each as the statement it builds and
  awaits. The other \<open>create\<close> methods insert the value they are given and return the row
  the store makes of it; what the store adds to an inserted row is laid down in the schema
  module, so they are left out.
\<close>

definition PgStorage_getPortfolioItems :: "database \<Rightarrow> exn + portfolio_item list" where
  "PgStorage_getPortfolioItems d = await d (portfolioItems d)"

definition PgStorage_getPortfolioItem :: "database \<Rightarrow> int \<Rightarrow> exn + portfolio_item option" where
  "PgStorage_getPortfolioItem d i =
     (case await d (select_where (\<lambda>r. pi_id r = i) (portfolioItems d)) of
        Inl e \<Rightarrow> Inl e
      | Inr items \<Rightarrow> Inr (first_row items))"

definition PgStorage_getBlogPosts :: "database \<Rightarrow> exn + blog_post list" where
  "PgStorage_getBlogPosts d = await d (order_by_desc bp_publishDate (blogPosts d))"

definition PgStorage_getBlogPost :: "database \<Rightarrow> int \<Rightarrow> exn + blog_post option" where
  "PgStorage_getBlogPost d i =
     (case await d (select_where (\<lambda>r. bp_id r = i) (blogPosts d)) of
        Inl e \<Rightarrow> Inl e
      | Inr posts \<Rightarrow> Inr (first_row posts))"

definition PgStorage_getAgentById :: "database \<Rightarrow> string \<Rightarrow> exn + agent option" where
  "PgStorage_getAgentById d agentId =
     (case await d (select_where (\<lambda>r. ag_agentId r = agentId) (agents d)) of
        Inl e \<Rightarrow> Inl e
      | Inr items \<Rightarrow> Inr (first_row items))"

definition PgStorage_getAgentsByUserId :: "database \<Rightarrow> string \<Rightarrow> exn + agent list" where
  "PgStorage_getAgentsByUserId d userId =
     await d (select_where (\<lambda>r. ag_userId r = userId) (agents d))"

text \<open>\<open>now\<close> is the value of \<open>new Date()\<close> when the statement is built.\<close>

definition PgStorage_updateAgentStatus ::
  "int \<Rightarrow> database \<Rightarrow> string \<Rightarrow> string \<Rightarrow> exn + (agent option \<times> database)" where
  "PgStorage_updateAgentStatus now d agentId status =
     (let set = (\<lambda>r. r\<lparr>ag_status := status, ag_updatedAt := now\<rparr>);
          whr = (\<lambda>r. ag_agentId r = agentId)
      in case await d (returning set whr (agents d)) of
           Inl e \<Rightarrow> Inl e
         | Inr result \<Rightarrow>
             Inr (first_row result, d\<lparr>agents := update_set_where set whr (agents d)\<rparr>))"

definition PgStorage_getApiKeyById :: "database \<Rightarrow> int \<Rightarrow> exn + api_key option" where
  "PgStorage_getApiKeyById d i =
     (case await d (select_where (\<lambda>r. ak_id r = i) (apiKeys d)) of
        Inl e \<Rightarrow> Inl e
      | Inr keys \<Rightarrow> Inr (first_row keys))"

definition PgStorage_getApiKeysByUserId :: "database \<Rightarrow> string \<Rightarrow> exn + api_key list" where
  "PgStorage_getApiKeysByUserId d userId =
     await d (select_where (\<lambda>r. ak_userId r = userId) (apiKeys d))"

definition PgStorage_validateApiKey :: "database \<Rightarrow> string \<Rightarrow> exn + api_key option" where
  "PgStorage_validateApiKey d key =
     (case await d (select_where (\<lambda>r. ak_key r = key \<and> ak_active r = True) (apiKeys d)) of
        Inl e \<Rightarrow> Inl e
      | Inr keys \<Rightarrow> Inr (first_row keys))"

definition PgStorage_deactivateApiKey ::
  "database \<Rightarrow> int \<Rightarrow> exn + (api_key option \<times> database)" where
  "PgStorage_deactivateApiKey d i =
     (let set = (\<lambda>r. r\<lparr>ak_active := False\<rparr>);
          whr = (\<lambda>r. ak_id r = i)
      in case await d (returning set whr (apiKeys d)) of
           Inl e \<Rightarrow> Inl e
         | Inr result \<Rightarrow>
             Inr (first_row result, d\<lparr>apiKeys := update_set_where set whr (apiKeys d)\<rparr>))"

definition PgStorage_updateApiKeyLastUsed ::
  "int \<Rightarrow> database \<Rightarrow> int \<Rightarrow> exn + database" where
  "PgStorage_updateApiKeyLastUsed now d i =
     (let set = (\<lambda>r. r\<lparr>ak_lastUsed := Some now\<rparr>);
          whr = (\<lambda>r. ak_id r = i)
      in await d (d\<lparr>apiKeys := update_set_where set whr (apiKeys d)\<rparr>))"

definition PgStorage_getIntegrationsByAgentId ::
  "database \<Rightarrow> string \<Rightarrow> exn + agent_integration list" where
  "PgStorage_getIntegrationsByAgentId d agentId =
     await d (select_where (\<lambda>r. ai_agentId r = agentId) (agentIntegrations d))"

definition PgStorage_getIntegrationsByApiKeyId ::
  "database \<Rightarrow> int \<Rightarrow> exn + agent_integration list" where
  "PgStorage_getIntegrationsByApiKeyId d apiKeyId =
     await d (select_where (\<lambda>r. ai_apiKeyId r = apiKeyId) (agentIntegrations d))"

definition PgStorage_deactivateIntegration ::
  "int \<Rightarrow> database \<Rightarrow> int \<Rightarrow> exn + (agent_integration option \<times> database)" where
  "PgStorage_deactivateIntegration now d i =
     (let set = (\<lambda>r. r\<lparr>ai_active := False, ai_updatedAt := now\<rparr>);
          whr = (\<lambda>r. ai_id r = i)
      in case await d (returning set whr (agentIntegrations d)) of
           Inl e \<Rightarrow> Inl e
         | Inr result \<Rightarrow>
             Inr (first_row result,
                  d\<lparr>agentIntegrations := update_set_where set whr (agentIntegrations d)\<rparr>))"

text \<open>\<open>insert(apiUsage).values(usage).returning()\<close> yields the one row it added.\<close>

definition PgStorage_recordApiUsage ::
  "database \<Rightarrow> api_usage \<Rightarrow> exn + (api_usage \<times> database)" where
  "PgStorage_recordApiUsage d usage =
     (case await d [usage] of
        Inl e \<Rightarrow> Inl e
      | Inr result \<Rightarrow> Inr (result ! 0, d\<lparr>apiUsage := apiUsage d @ [usage]\<rparr>))"

definition PgStorage_getApiUsageByKeyId :: "database \<Rightarrow> int \<Rightarrow> exn + api_usage list" where
  "PgStorage_getApiUsageByKeyId d apiKeyId =
     await d (select_where (\<lambda>r. au_apiKeyId r = apiKeyId) (apiUsage d))"

definition PgStorage_getTixaeApiEndpoints :: "database \<Rightarrow> exn + tixae_api_endpoint list" where
  "PgStorage_getTixaeApiEndpoints d = await d (tixaeApiEndpoints d)"

definition PgStorage_getTixaeApiEndpoint ::
  "database \<Rightarrow> int \<Rightarrow> exn + tixae_api_endpoint option" where
  "PgStorage_getTixaeApiEndpoint d i =
     (case await d (select_where (\<lambda>r. te_id r = i) (tixaeApiEndpoints d)) of
        Inl e \<Rightarrow> Inl e
      | Inr endpoints \<Rightarrow> Inr (first_row endpoints))"

definition PgStorage_getTixaeApiEndpointByName ::
  "database \<Rightarrow> string \<Rightarrow> exn + tixae_api_endpoint option" where
  "PgStorage_getTixaeApiEndpointByName d name =
     (case await d (select_where (\<lambda>r. te_name r = name) (tixaeApiEndpoints d)) of
        Inl e \<Rightarrow> Inl e
      | Inr endpoints \<Rightarrow> Inr (first_row endpoints))"

definition PgStorage_getTixaeAgentTemplates :: "database \<Rightarrow> exn + tixae_agent_template list" where
  "PgStorage_getTixaeAgentTemplates d = await d (tixaeAgentTemplates d)"

definition PgStorage_getTixaeAgentTemplate ::
  "database \<Rightarrow> int \<Rightarrow> exn + tixae_agent_template option" where
  "PgStorage_getTixaeAgentTemplate d i =
     (case await d (select_where (\<lambda>r. tt_id r = i) (tixaeAgentTemplates d)) of
        Inl e \<Rightarrow> Inl e
      | Inr templates \<Rightarrow> Inr (first_row templates))"

definition PgStorage_getTixaeAgentTemplateByName ::
  "database \<Rightarrow> string \<Rightarrow> exn + tixae_agent_template option" where
  "PgStorage_getTixaeAgentTemplateByName d name =
     (case await d (select_where (\<lambda>r. tt_name r = name) (tixaeAgentTemplates d)) of
        Inl e \<Rightarrow> Inl e
      | Inr templates \<Rightarrow> Inr (first_row templates))"

section \<open>The request, the response and what a middleware can do to them\<close>

record request =
  authorization :: "string option"
  origin :: "string option"
  referer :: "string option"
  path :: string
  originalUrl :: string
  req_method :: string
  body :: json
  apiKey :: "api_key option"

text \<open>
  The value of the property \<open>res.end\<close>: the framework's own function, or the closure that
  \<open>trackApiUsage\<close> installs, which holds \<open>originalEnd\<close> and \<open>apiKey\<close>.
\<close>

datatype end_fn =
    NativeEnd
  | TrackingEnd end_fn api_key

record response =
  statusCode :: nat
  body_sent :: "json option"
  end_method :: end_fn
  finished :: nat

text \<open>
  All a middleware can touch. \<open>next_calls\<close> counts the calls of \<open>next\<close>, \<open>queries\<close> lists the
  reading storage methods called, \<open>usage_calls\<close> the arguments of each call of
  \<open>storage.recordApiUsage\<close>, \<open>logs\<close> the messages passed to \<open>log\<close>.
\<close>

record world =
  req :: request
  res :: response
  db :: database
  next_calls :: nat
  queries :: "string list"
  usage_calls :: "api_usage list"
  logs :: "string list"

definition call_next :: "world \<Rightarrow> world" where
  "call_next w = w\<lparr>next_calls := Suc (next_calls w)\<rparr>"

text \<open>
  Modelled from the spec: \<open>log\<close> comes from the module \<open>./vite\<close>, which is not among the
  sources; the spec has failures caught and logged. The message joins the list \<open>logs\<close>.
\<close>

definition log :: "string \<Rightarrow> world \<Rightarrow> world" where
  "log msg w = w\<lparr>logs := logs w @ [msg]\<rparr>"

definition res_status :: "nat \<Rightarrow> world \<Rightarrow> world" where
  "res_status code w = w\<lparr>res := (res w)\<lparr>statusCode := code\<rparr>\<rparr>"

text \<open>
  Modelled from the spec: the module \<open>./storage\<close>, which exports the object \<open>storage\<close>, is
  not among the sources; the spec has the middleware and the route handlers reach the
  database through the storage adapter, so \<open>storage\<close> is the PgStorage adapter here and in
  the middleware below.

  \<open>storage.recordApiUsage(usage).catch(err => log(...))\<close> is not awaited. The insertion
  is placed at the call: nothing else writes the usage table in between.
\<close>

definition recordApiUsage_catch :: "api_usage \<Rightarrow> world \<Rightarrow> world" where
  "recordApiUsage_catch usage w =
     (let w1 = w\<lparr>usage_calls := usage_calls w @ [usage]\<rparr>
      in case PgStorage_recordApiUsage (db w1) usage of
           Inl err \<Rightarrow> log (''Failed to record API usage: '' @ render err) w1
         | Inr (row, d) \<Rightarrow> w1\<lparr>db := d\<rparr>)"

text \<open>
  A call \<open>res.end(...)\<close>: whatever function the property holds at that moment runs. The
  framework's function finishes the response; the closure of \<open>trackApiUsage\<close> puts
  \<open>originalEnd\<close> back, records the usage and calls \<open>res.end\<close> again.
\<close>

function res_end :: "world \<Rightarrow> world" where
  "res_end w =
     (case end_method (res w) of
        NativeEnd \<Rightarrow> w\<lparr>res := (res w)\<lparr>finished := Suc (finished (res w))\<rparr>\<rparr>
      | TrackingEnd originalEnd k \<Rightarrow>
          res_end
            (recordApiUsage_catch
               \<lparr>au_apiKeyId = ak_id k,
                au_endpoint = originalUrl (req w),
                au_statusCode = toString (statusCode (res w)),
                au_requestPayload = (if req_method (req w) = ''GET'' then JNull else body (req w))\<rparr>
               (w\<lparr>res := (res w)\<lparr>end_method := originalEnd\<rparr>\<rparr>)))"
  by pat_completeness auto

termination res_end
  by (relation "measure (\<lambda>w. size (end_method (res w)))")
     (auto simp: recordApiUsage_catch_def log_def Let_def split: sum.splits prod.splits)

declare res_end.simps [simp del]

text \<open>\<open>res.json(b)\<close> of the framework: the body is written and \<open>res.end\<close> is called.\<close>

definition res_json :: "json \<Rightarrow> world \<Rightarrow> world" where
  "res_json b w = res_end (w\<lparr>res := (res w)\<lparr>body_sent := Some b\<rparr>\<rparr>)"

section \<open>The middleware\<close>

definition validateApiKey :: "world \<Rightarrow> world" where
  "validateApiKey w =
     (let authHeader = authorization (req w) in
      if authHeader = None \<or> authHeader = Some [] \<or> \<not> startsWith (the authHeader) ''Bearer ''
      then res_json (JObj [(''error'', JStr ''Authorization header missing or invalid'')])
             (res_status 401 w)
      else
        let token = substring (the authHeader) 7;
            w1 = w\<lparr>queries := queries w @ [''validateApiKey'']\<rparr>
        in case PgStorage_validateApiKey (db w1) token of
             Inl error \<Rightarrow>
               res_json (JObj [(''error'', JStr ''Error validating API key'')])
                 (res_status 500 (log (''API key validation error: '' @ render error) w1))
           | Inr None \<Rightarrow>
               res_json (JObj [(''error'', JStr ''Invalid or inactive API key'')])
                 (res_status 403 w1)
           | Inr (Some validatedKey) \<Rightarrow>
               call_next (w1\<lparr>req := (req w1)\<lparr>apiKey := Some validatedKey\<rparr>\<rparr>))"

definition trackApiUsage :: "world \<Rightarrow> world" where
  "trackApiUsage w =
     (case apiKey (req w) of
        None \<Rightarrow> call_next w
      | Some k \<Rightarrow>
          let originalEnd = end_method (res w)
          in call_next (w\<lparr>res := (res w)\<lparr>end_method := TrackingEnd originalEnd k\<rparr>\<rparr>))"

text \<open>\<open>origin || referer\<close>: the first of the two that is neither undefined nor empty.\<close>

definition truthy :: "string option \<Rightarrow> bool" where
  "truthy s = (s \<noteq> None \<and> s \<noteq> Some [])"

definition or_else :: "string option \<Rightarrow> string option \<Rightarrow> string option" where
  "or_else a b = (if truthy a then a else b)"

text \<open>\<open>`${source}`\<close>\<close>

definition render_source :: "string option \<Rightarrow> string" where
  "render_source s = (case s of None \<Rightarrow> ''undefined'' | Some v \<Rightarrow> v)"

text \<open>The callback of \<open>integrations.some\<close>.\<close>

definition domain_allows :: "string \<Rightarrow> agent_integration \<Rightarrow> bool" where
  "domain_allows hostname integration =
     (ai_domain integration = hostname \<or>
      (startsWith (ai_domain integration) ''*.'' \<and>
       endsWith hostname (substring (ai_domain integration) 1)))"

text \<open>
  \<open>new URL(source).hostname\<close> belongs to the platform, so \<open>verifyDomain\<close> takes it as the
  parameter \<open>url_hostname\<close>: the hostname, or the TypeError the constructor throws.
\<close>

definition verifyDomain :: "(string \<Rightarrow> exn + string) \<Rightarrow> world \<Rightarrow> world" where
  "verifyDomain url_hostname w =
     (case apiKey (req w) of
        None \<Rightarrow> call_next w
      | Some k \<Rightarrow>
          if startsWith (path (req w)) ''/api/admin'' \<or> path (req w) = ''/api/v1/keys/verify''
          then call_next w
          else
            let w1 = w\<lparr>queries := queries w @ [''getIntegrationsByApiKeyId'']\<rparr>
            in (case PgStorage_getIntegrationsByApiKeyId (db w1) (ak_id k) of
                 Inl error \<Rightarrow>
                   res_json (JObj [(''error'', JStr ''Error verifying domain'')])
                     (res_status 500 (log (''Domain verification error: '' @ render error) w1))
               | Inr integrations \<Rightarrow>
                   if length integrations = 0
                   then res_json
                          (JObj [(''error'', JStr ''No integrations configured for this API key'')])
                          (res_status 403 w1)
                   else
                     let source = or_else (origin (req w1)) (referer (req w1))
                     in (case (if truthy source
                              then (case url_hostname (the source) of
                                      Inl error \<Rightarrow> Inl error
                                    | Inr hostname \<Rightarrow>
                                        Inr (list_ex (domain_allows hostname) integrations))
                              else Inr False) of
                          Inl error \<Rightarrow>
                            res_json (JObj [(''error'', JStr ''Error verifying domain'')])
                              (res_status 500
                                 (log (''Domain verification error: '' @ render error) w1))
                        | Inr domainMatch \<Rightarrow>
                            if \<not> domainMatch
                            then res_json
                                   (JObj [(''error'',
                                           JStr ''This domain is not authorized to use this API key'')])
                                   (res_status 403
                                      (log (''Domain verification failed: '' @ render_source source)
                                         w1))
                            else call_next w1)))"

section \<open>What runs after the middleware\<close>

text \<open>
  Once \<open>trackApiUsage\<close> has called \<open>next\<close>, later middleware and the route handler act on
  the same request and response. As far as usage recording can see, they set the status
  code, replace \<open>req.body\<close>, and finish the response, by \<open>res.end\<close> or by \<open>res.json\<close>.
\<close>

datatype action =
    SetStatus nat
  | SetBody json
  | Json json
  | End

fun act :: "action \<Rightarrow> world \<Rightarrow> world" where
  "act (SetStatus code) w = res_status code w"
| "act (SetBody b) w = w\<lparr>req := (req w)\<lparr>body := b\<rparr>\<rparr>"
| "act (Json b) w = res_json b w"
| "act End w = res_end w"

fun finishes :: "action \<Rightarrow> bool" where
  "finishes (Json b) = True"
| "finishes End = True"
| "finishes a = False"

definition downstream :: "action list \<Rightarrow> world \<Rightarrow> world" where
  "downstream acts w = fold act acts w"

section \<open>Concrete requests\<close>

text \<open>
  For the runs on concrete requests: the value of \<open>new URL(s).hostname\<close> on the strings
  used there, which are an \<open>http://\<close> or \<open>https://\<close> prefix followed by a plain lower-case
  host name, and strings without a scheme, which the constructor refuses. It does not
  describe the URL parser on other input, and no statement about all requests uses it.
\<close>

definition URL_hostname :: "string \<Rightarrow> exn + string" where
  "URL_hostname s =
     (let after = (if startsWith s ''https://'' then Some (drop 8 s)
                   else if startsWith s ''http://'' then Some (drop 7 s)
                   else None)
      in case after of
           None \<Rightarrow> Inl (Exn ''TypeError: Invalid URL'')
         | Some r \<Rightarrow>
             let host = takeWhile (\<lambda>c. c \<notin> set ''/?#:'') r
             in if host = [] then Inl (Exn ''TypeError: Invalid URL'') else Inr host)"

definition key1 :: api_key where
  "key1 = \<lparr>ak_id = 1, ak_key = ''k-live-1'', ak_userId = ''u1'', ak_active = True,
           ak_lastUsed = None, ak_rest = [(''name'', JStr ''site'')]\<rparr>"

definition key2 :: api_key where
  "key2 = \<lparr>ak_id = 2, ak_key = ''k-old-2'', ak_userId = ''u1'', ak_active = False,
           ak_lastUsed = Some 1700000000000, ak_rest = []\<rparr>"

definition integration1 :: agent_integration where
  "integration1 = \<lparr>ai_id = 10, ai_agentId = ''a1'', ai_apiKeyId = 1,
                   ai_domain = ''shop.example.com'', ai_active = True, ai_updatedAt = 0,
                   ai_rest = []\<rparr>"

definition integration2 :: agent_integration where
  "integration2 = \<lparr>ai_id = 11, ai_agentId = ''a1'', ai_apiKeyId = 1,
                   ai_domain = ''*.example.com'', ai_active = True, ai_updatedAt = 0,
                   ai_rest = []\<rparr>"

definition post1 :: blog_post where
  "post1 = \<lparr>bp_id = 1, bp_publishDate = 100, bp_rest = []\<rparr>"

definition post2 :: blog_post where
  "post2 = \<lparr>bp_id = 2, bp_publishDate = 200, bp_rest = []\<rparr>"

definition db1 :: database where
  "db1 = \<lparr>fault = None, portfolioItems = [], blogPosts = [post1, post2], agents = [],
          apiKeys = [key1, key2], agentIntegrations = [integration1, integration2],
          apiUsage = [], tixaeApiEndpoints = [], tixaeAgentTemplates = []\<rparr>"

text \<open>The same store while it cannot be reached.\<close>

definition db_down :: database where
  "db_down = db1\<lparr>fault := Some (Exn ''Error: connect ECONNREFUSED'')\<rparr>"

definition req1 :: request where
  "req1 = \<lparr>authorization = Some ''Bearer k-live-1'',
           origin = Some ''https://shop.example.com'', referer = None,
           path = ''/api/v1/chat'', originalUrl = ''/api/v1/chat?x=1'', req_method = ''POST'',
           body = JObj [(''q'', JStr ''hi'')], apiKey = None\<rparr>"

definition res1 :: response where
  "res1 = \<lparr>statusCode = 200, body_sent = None, end_method = NativeEnd, finished = 0\<rparr>"

definition world1 :: world where
  "world1 = \<lparr>req = req1, res = res1, db = db1, next_calls = 0, queries = [],
             usage_calls = [], logs = []\<rparr>"

text \<open>The request after \<open>validateApiKey\<close> has attached the first key.\<close>

definition world_keyed :: world where
  "world_keyed = world1\<lparr>req := req1\<lparr>apiKey := Some key1\<rparr>\<rparr>"

text \<open>A browser that sends \<open>Origin: null\<close>, as a page opened from a local file does.\<close>

definition world_null_origin :: world where
  "world_null_origin = world1\<lparr>req := req1\<lparr>origin := Some ''null'', apiKey := Some key1\<rparr>\<rparr>"

text \<open>The keyed request while the store cannot be reached.\<close>

definition world_down :: world where
  "world_down = world_keyed\<lparr>db := db_down\<rparr>"

text \<open>The keyed request sent with PUT instead of POST.\<close>

definition world_put :: world where
  "world_put = world1\<lparr>req := req1\<lparr>req_method := ''PUT'', apiKey := Some key1\<rparr>\<rparr>"

section \<open>Properties of the response hook\<close>

lemma startsWith_prefix: "startsWith s p \<longleftrightarrow> prefix p s"
  by (auto simp: startsWith_def prefix_def) (metis append_take_drop_id)

lemma endsWith_suffix: "endsWith s p \<longleftrightarrow> suffix p s"
proof
  assume "endsWith s p"
  then have "s = take (length s - length p) s @ p"
    by (metis append_take_drop_id endsWith_def)
  then show "suffix p s"
    by (metis suffixI)
next
  assume "suffix p s"
  then show "endsWith s p"
    by (auto simp: endsWith_def suffix_def)
qed

lemma recordApiUsage_catch_frame [simp]:
  "req (recordApiUsage_catch u w) = req w"
  "res (recordApiUsage_catch u w) = res w"
  "next_calls (recordApiUsage_catch u w) = next_calls w"
  "queries (recordApiUsage_catch u w) = queries w"
  "usage_calls (recordApiUsage_catch u w) = usage_calls w @ [u]"
  "fault (db (recordApiUsage_catch u w)) = fault (db w)"
  by (auto simp: recordApiUsage_catch_def PgStorage_recordApiUsage_def await_def log_def Let_def
           split: option.splits)

lemma recordApiUsage_catch_rows:
  "apiUsage (db (recordApiUsage_catch u w)) =
     (if fault (db w) = None then apiUsage (db w) @ [u] else apiUsage (db w))"
  by (auto simp: recordApiUsage_catch_def PgStorage_recordApiUsage_def await_def log_def Let_def
           split: option.splits)

lemma res_end_native:
  "end_method (res w) = NativeEnd \<Longrightarrow>
   res_end w = w\<lparr>res := (res w)\<lparr>finished := Suc (finished (res w))\<rparr>\<rparr>"
  by (simp add: res_end.simps)

lemma res_end_tracking:
  "end_method (res w) = TrackingEnd originalEnd k \<Longrightarrow>
   res_end w =
     res_end
       (recordApiUsage_catch
          \<lparr>au_apiKeyId = ak_id k,
           au_endpoint = originalUrl (req w),
           au_statusCode = toString (statusCode (res w)),
           au_requestPayload = (if req_method (req w) = ''GET'' then JNull else body (req w))\<rparr>
          (w\<lparr>res := (res w)\<lparr>end_method := originalEnd\<rparr>\<rparr>))"
  by (subst res_end.simps) simp

text \<open>
  Whatever closures are stacked on \<open>res.end\<close>, a call leaves the request, the status, the
  body, the count of \<open>next\<close> and the reading queries alone, runs the framework's function
  exactly once, and leaves the framework's function in the property.
\<close>

lemma res_end_frame:
  "req (res_end w) = req w \<and>
   statusCode (res (res_end w)) = statusCode (res w) \<and>
   body_sent (res (res_end w)) = body_sent (res w) \<and>
   next_calls (res_end w) = next_calls w \<and>
   queries (res_end w) = queries w \<and>
   fault (db (res_end w)) = fault (db w) \<and>
   finished (res (res_end w)) = Suc (finished (res w)) \<and>
   end_method (res (res_end w)) = NativeEnd"
proof (induction w rule: res_end.induct)
  case (1 w)
  show ?case
  proof (cases "end_method (res w)")
    case NativeEnd
    then show ?thesis by (simp add: res_end_native)
  next
    case (TrackingEnd originalEnd k)
    then show ?thesis using 1 by (simp add: res_end_tracking)
  qed
qed

lemma res_end_simps [simp]:
  "req (res_end w) = req w"
  "statusCode (res (res_end w)) = statusCode (res w)"
  "body_sent (res (res_end w)) = body_sent (res w)"
  "next_calls (res_end w) = next_calls w"
  "queries (res_end w) = queries w"
  "fault (db (res_end w)) = fault (db w)"
  "finished (res (res_end w)) = Suc (finished (res w))"
  "end_method (res (res_end w)) = NativeEnd"
  using res_end_frame [of w] by simp_all

section \<open>validateApiKey\<close>

text \<open>
  C2. When the Authorization header is absent, or present without the prefix \<open>Bearer \<close>,
  \<open>validateApiKey\<close> answers 401 with the body \<open>{error: "Authorization header missing or
  invalid"}\<close>, does not call \<open>next\<close>, sends no query to the storage, and attaches nothing to
  the request.
\<close>

theorem validateApiKey_401:
  assumes "authorization (req w) = None \<or>
           (\<exists>h. authorization (req w) = Some h \<and> \<not> startsWith h ''Bearer '')"
  shows "statusCode (res (validateApiKey w)) = 401 \<and>
         body_sent (res (validateApiKey w)) =
           Some (JObj [(''error'', JStr ''Authorization header missing or invalid'')]) \<and>
         finished (res (validateApiKey w)) = Suc (finished (res w)) \<and>
         next_calls (validateApiKey w) = next_calls w \<and>
         queries (validateApiKey w) = queries w \<and>
         req (validateApiKey w) = req w"
  using assms by (auto simp: validateApiKey_def res_json_def res_status_def Let_def)

theorem validateApiKey_401_witness:
  "(authorization (req (world1\<lparr>req := req1\<lparr>authorization := Some ''Basic dXNlcg==''\<rparr>\<rparr>)) = None \<or>
    (\<exists>h. authorization (req (world1\<lparr>req := req1\<lparr>authorization := Some ''Basic dXNlcg==''\<rparr>\<rparr>))
            = Some h \<and> \<not> startsWith h ''Bearer '')) \<and>
   statusCode (res (validateApiKey (world1\<lparr>req := req1\<lparr>authorization := Some ''Basic dXNlcg==''\<rparr>\<rparr>)))
     = 401 \<and>
   next_calls (validateApiKey (world1\<lparr>req := req1\<lparr>authorization := Some ''Basic dXNlcg==''\<rparr>\<rparr>))
     = 0 \<and>
   queries (validateApiKey (world1\<lparr>req := req1\<lparr>authorization := Some ''Basic dXNlcg==''\<rparr>\<rparr>))
     = []"
  using validateApiKey_401 [of "world1\<lparr>req := req1\<lparr>authorization := Some ''Basic dXNlcg==''\<rparr>\<rparr>"]
  by (simp add: world1_def req1_def startsWith_def)

text \<open>What the storage's \<open>validateApiKey\<close> yields: the first active row with that key string.\<close>

lemma first_row_filter: "first_row (filter P xs) = List.find P xs"
  by (induction xs) (auto simp: first_row_def)

lemma first_row_returning:
  "first_row (returning f P xs) = map_option f (List.find P xs)"
  by (induction xs) (auto simp: first_row_def returning_def)

lemma PgStorage_validateApiKey_find:
  "PgStorage_validateApiKey d t =
     (case fault d of
        Some e \<Rightarrow> Inl e
      | None \<Rightarrow> Inr (List.find (\<lambda>r. ak_key r = t \<and> ak_active r) (apiKeys d)))"
  by (simp add: PgStorage_validateApiKey_def await_def select_where_def first_row_filter
           split: option.splits)

text \<open>
  C3. With a header \<open>Bearer <token>\<close> and a store that answers, if no row of the key table
  has that key string and \<open>active = true\<close>, \<open>validateApiKey\<close> answers 403 with
  \<open>{error: "Invalid or inactive API key"}\<close>, does not call \<open>next\<close> and attaches nothing.
  The storage's \<open>validateApiKey\<close> yields undefined exactly when no such row exists, and
  any row it yields is in the table, has the key string and is active.
\<close>

theorem validateApiKey_403:
  assumes "authorization (req w) = Some h" and "startsWith h ''Bearer ''"
    and "fault (db w) = None"
    and "\<not> (\<exists>r \<in> set (apiKeys (db w)). ak_key r = substring h 7 \<and> ak_active r)"
  shows "statusCode (res (validateApiKey w)) = 403 \<and>
         body_sent (res (validateApiKey w)) =
           Some (JObj [(''error'', JStr ''Invalid or inactive API key'')]) \<and>
         finished (res (validateApiKey w)) = Suc (finished (res w)) \<and>
         next_calls (validateApiKey w) = next_calls w \<and>
         req (validateApiKey w) = req w \<and>
         (\<forall>t. (PgStorage_validateApiKey (db w) t = Inr None \<longleftrightarrow>
                 \<not> (\<exists>r \<in> set (apiKeys (db w)). ak_key r = t \<and> ak_active r)) \<and>
              (\<forall>k. PgStorage_validateApiKey (db w) t = Inr (Some k) \<longrightarrow>
                     k \<in> set (apiKeys (db w)) \<and> ak_key k = t \<and> ak_active k))"
proof -
  from assms(2) have ne: "h \<noteq> []"
    by (auto simp: startsWith_def)
  from assms(3,4) have q: "PgStorage_validateApiKey (db w) (substring h 7) = Inr None"
    by (simp add: PgStorage_validateApiKey_find find_None_iff)
  have mw: "validateApiKey w =
      res_json (JObj [(''error'', JStr ''Invalid or inactive API key'')])
        (res_status 403 (w\<lparr>queries := queries w @ [''validateApiKey'']\<rparr>))"
    using assms(1,2) ne q by (simp add: validateApiKey_def Let_def)
  have st: "\<forall>t. (PgStorage_validateApiKey (db w) t = Inr None \<longleftrightarrow>
                 \<not> (\<exists>r \<in> set (apiKeys (db w)). ak_key r = t \<and> ak_active r)) \<and>
              (\<forall>k. PgStorage_validateApiKey (db w) t = Inr (Some k) \<longrightarrow>
                     k \<in> set (apiKeys (db w)) \<and> ak_key k = t \<and> ak_active k)"
    using assms(3) by (auto simp: PgStorage_validateApiKey_find find_None_iff find_Some_iff)
  show ?thesis
    using st by (simp add: mw res_json_def res_status_def)
qed

text \<open>The second key of the example store is inactive: its token is refused.\<close>

theorem validateApiKey_403_witness:
  "authorization (req (world1\<lparr>req := req1\<lparr>authorization := Some ''Bearer k-old-2''\<rparr>\<rparr>))
     = Some ''Bearer k-old-2'' \<and>
   startsWith ''Bearer k-old-2'' ''Bearer '' \<and>
   fault (db (world1\<lparr>req := req1\<lparr>authorization := Some ''Bearer k-old-2''\<rparr>\<rparr>)) = None \<and>
   \<not> (\<exists>r \<in> set (apiKeys (db (world1\<lparr>req := req1\<lparr>authorization := Some ''Bearer k-old-2''\<rparr>\<rparr>))).
         ak_key r = substring ''Bearer k-old-2'' 7 \<and> ak_active r) \<and>
   statusCode (res (validateApiKey (world1\<lparr>req := req1\<lparr>authorization := Some ''Bearer k-old-2''\<rparr>\<rparr>)))
     = 403 \<and>
   next_calls (validateApiKey (world1\<lparr>req := req1\<lparr>authorization := Some ''Bearer k-old-2''\<rparr>\<rparr>))
     = 0"
  using validateApiKey_403 [of "world1\<lparr>req := req1\<lparr>authorization := Some ''Bearer k-old-2''\<rparr>\<rparr>"
                               "''Bearer k-old-2''"]
  by (simp add: world1_def req1_def db1_def key1_def key2_def startsWith_def substring_def)

text \<open>
  C4. With a header \<open>Bearer <token>\<close> and a store that answers, if some row of the key
  table has that key string and \<open>active = true\<close>, \<open>validateApiKey\<close> attaches the first
  such row to the request, calls \<open>next\<close> once, and leaves the response untouched: no
  status, no body, nothing finished.
\<close>

theorem validateApiKey_attaches:
  assumes "authorization (req w) = Some h" and "startsWith h ''Bearer ''"
    and "fault (db w) = None"
    and "\<exists>r \<in> set (apiKeys (db w)). ak_key r = substring h 7 \<and> ak_active r"
  shows "\<exists>k. List.find (\<lambda>r. ak_key r = substring h 7 \<and> ak_active r) (apiKeys (db w)) = Some k \<and>
             k \<in> set (apiKeys (db w)) \<and> ak_key k = substring h 7 \<and> ak_active k \<and>
             req (validateApiKey w) = (req w)\<lparr>apiKey := Some k\<rparr> \<and>
             next_calls (validateApiKey w) = Suc (next_calls w) \<and>
             res (validateApiKey w) = res w \<and>
             db (validateApiKey w) = db w \<and>
             logs (validateApiKey w) = logs w"
proof -
  from assms(2) have ne: "h \<noteq> []"
    by (auto simp: startsWith_def)
  from assms(4) obtain k where
    k: "List.find (\<lambda>r. ak_key r = substring h 7 \<and> ak_active r) (apiKeys (db w)) = Some k"
    by (cases "List.find (\<lambda>r. ak_key r = substring h 7 \<and> ak_active r) (apiKeys (db w))")
       (auto simp: find_None_iff)
  then have props: "k \<in> set (apiKeys (db w)) \<and> ak_key k = substring h 7 \<and> ak_active k"
    by (auto simp: find_Some_iff)
  from assms(3) k have q: "PgStorage_validateApiKey (db w) (substring h 7) = Inr (Some k)"
    by (simp add: PgStorage_validateApiKey_find)
  have mw: "validateApiKey w =
      call_next (w\<lparr>queries := queries w @ [''validateApiKey''],
                  req := (req w)\<lparr>apiKey := Some k\<rparr>\<rparr>)"
    using assms(1,2) ne q by (simp add: validateApiKey_def Let_def)
  show ?thesis
    using k props by (simp add: mw call_next_def)
qed

theorem validateApiKey_attaches_witness:
  "authorization (req world1) = Some ''Bearer k-live-1'' \<and>
   startsWith ''Bearer k-live-1'' ''Bearer '' \<and>
   fault (db world1) = None \<and>
   (\<exists>r \<in> set (apiKeys (db world1)). ak_key r = substring ''Bearer k-live-1'' 7 \<and> ak_active r) \<and>
   req (validateApiKey world1) = (req world1)\<lparr>apiKey := Some key1\<rparr> \<and>
   next_calls (validateApiKey world1) = 1 \<and>
   res (validateApiKey world1) = res1"
  using validateApiKey_attaches [of world1 "''Bearer k-live-1''"]
  by (simp add: world1_def req1_def db1_def key1_def key2_def startsWith_def substring_def)

text \<open>The responses each middleware function can produce.\<close>

lemma validateApiKey_statuses:
  "(finished (res (validateApiKey w)) = finished (res w) \<and>
      statusCode (res (validateApiKey w)) = statusCode (res w) \<and>
      body_sent (res (validateApiKey w)) = body_sent (res w)) \<or>
   (finished (res (validateApiKey w)) = Suc (finished (res w)) \<and>
      statusCode (res (validateApiKey w)) \<in> {401, 403, 500} \<and>
      (\<exists>msg. body_sent (res (validateApiKey w)) = Some (JObj [(''error'', JStr msg)])) \<and>
      next_calls (validateApiKey w) = next_calls w)"
  by (auto simp: validateApiKey_def res_json_def res_status_def call_next_def log_def Let_def
           split: sum.splits option.splits)

lemma trackApiUsage_statuses:
  "finished (res (trackApiUsage w)) = finished (res w) \<and>
   statusCode (res (trackApiUsage w)) = statusCode (res w) \<and>
   body_sent (res (trackApiUsage w)) = body_sent (res w)"
  by (auto simp: trackApiUsage_def call_next_def Let_def split: option.splits)

lemma verifyDomain_statuses:
  "(finished (res (verifyDomain U w)) = finished (res w) \<and>
      statusCode (res (verifyDomain U w)) = statusCode (res w) \<and>
      body_sent (res (verifyDomain U w)) = body_sent (res w)) \<or>
   (finished (res (verifyDomain U w)) = Suc (finished (res w)) \<and>
      statusCode (res (verifyDomain U w)) \<in> {403, 500} \<and>
      (\<exists>msg. body_sent (res (verifyDomain U w)) = Some (JObj [(''error'', JStr msg)])) \<and>
      next_calls (verifyDomain U w) = next_calls w)"
  by (auto simp: verifyDomain_def res_json_def res_status_def call_next_def log_def Let_def
           split: sum.splits option.splits)

lemma validateApiKey_fault:
  assumes "authorization (req w) = Some h" and "startsWith h ''Bearer ''"
    and "fault (db w) = Some e"
  shows "validateApiKey w =
           res_json (JObj [(''error'', JStr ''Error validating API key'')])
             (res_status 500
                (log (''API key validation error: '' @ render e)
                   (w\<lparr>queries := queries w @ [''validateApiKey'']\<rparr>)))"
proof -
  from assms(2) have "h \<noteq> []"
    by (auto simp: startsWith_def)
  then show ?thesis
    using assms by (simp add: validateApiKey_def Let_def PgStorage_validateApiKey_find)
qed

lemma verifyDomain_fault:
  assumes "apiKey (req w) = Some k"
    and "\<not> startsWith (path (req w)) ''/api/admin''" and "path (req w) \<noteq> ''/api/v1/keys/verify''"
    and "fault (db w) = Some e"
  shows "verifyDomain U w =
           res_json (JObj [(''error'', JStr ''Error verifying domain'')])
             (res_status 500
                (log (''Domain verification error: '' @ render e)
                   (w\<lparr>queries := queries w @ [''getIntegrationsByApiKeyId'']\<rparr>)))"
  using assms
  by (simp add: verifyDomain_def Let_def PgStorage_getIntegrationsByApiKeyId_def await_def)

text \<open>
  C8. When the store rejects the statement, \<open>validateApiKey\<close> (on a request with a
  \<open>Bearer\<close> header) and \<open>verifyDomain\<close> (on a keyed request off the bypass paths) answer
  500 with a body \<open>{error: string}\<close> and do not call \<open>next\<close>. Whenever one of the three
  middleware functions finishes a response, its status is 401, 403 or 500; when it
  finishes none, status and body are as they were. \<open>trackApiUsage\<close> never finishes one.
\<close>

theorem storage_failure_500:
  "(\<forall>h e. authorization (req w) = Some h \<and> startsWith h ''Bearer '' \<and> fault (db w) = Some e \<longrightarrow>
      statusCode (res (validateApiKey w)) = 500 \<and>
      body_sent (res (validateApiKey w)) =
        Some (JObj [(''error'', JStr ''Error validating API key'')]) \<and>
      next_calls (validateApiKey w) = next_calls w \<and>
      req (validateApiKey w) = req w) \<and>
   (\<forall>k e. apiKey (req w) = Some k \<and> \<not> startsWith (path (req w)) ''/api/admin'' \<and>
      path (req w) \<noteq> ''/api/v1/keys/verify'' \<and> fault (db w) = Some e \<longrightarrow>
      statusCode (res (verifyDomain U w)) = 500 \<and>
      body_sent (res (verifyDomain U w)) =
        Some (JObj [(''error'', JStr ''Error verifying domain'')]) \<and>
      next_calls (verifyDomain U w) = next_calls w) \<and>
   (finished (res (validateApiKey w)) \<noteq> finished (res w) \<longrightarrow>
      statusCode (res (validateApiKey w)) \<in> {401, 403, 500}) \<and>
   (finished (res (verifyDomain U w)) \<noteq> finished (res w) \<longrightarrow>
      statusCode (res (verifyDomain U w)) \<in> {401, 403, 500}) \<and>
   (finished (res (validateApiKey w)) = finished (res w) \<longrightarrow>
      statusCode (res (validateApiKey w)) = statusCode (res w) \<and>
      body_sent (res (validateApiKey w)) = body_sent (res w)) \<and>
   (finished (res (verifyDomain U w)) = finished (res w) \<longrightarrow>
      statusCode (res (verifyDomain U w)) = statusCode (res w) \<and>
      body_sent (res (verifyDomain U w)) = body_sent (res w)) \<and>
   finished (res (trackApiUsage w)) = finished (res w) \<and>
   statusCode (res (trackApiUsage w)) = statusCode (res w) \<and>
   body_sent (res (trackApiUsage w)) = body_sent (res w)"
proof -
  have a: "\<forall>h e. authorization (req w) = Some h \<and> startsWith h ''Bearer '' \<and> fault (db w) = Some e \<longrightarrow>
      statusCode (res (validateApiKey w)) = 500 \<and>
      body_sent (res (validateApiKey w)) =
        Some (JObj [(''error'', JStr ''Error validating API key'')]) \<and>
      next_calls (validateApiKey w) = next_calls w \<and>
      req (validateApiKey w) = req w"
    by (auto simp: validateApiKey_fault res_json_def res_status_def log_def)
  have b: "\<forall>k e. apiKey (req w) = Some k \<and> \<not> startsWith (path (req w)) ''/api/admin'' \<and>
      path (req w) \<noteq> ''/api/v1/keys/verify'' \<and> fault (db w) = Some e \<longrightarrow>
      statusCode (res (verifyDomain U w)) = 500 \<and>
      body_sent (res (verifyDomain U w)) =
        Some (JObj [(''error'', JStr ''Error verifying domain'')]) \<and>
      next_calls (verifyDomain U w) = next_calls w"
    by (auto simp: verifyDomain_fault res_json_def res_status_def log_def)
  have c: "(finished (res (validateApiKey w)) \<noteq> finished (res w) \<longrightarrow>
      statusCode (res (validateApiKey w)) \<in> {401, 403, 500}) \<and>
     (finished (res (validateApiKey w)) = finished (res w) \<longrightarrow>
      statusCode (res (validateApiKey w)) = statusCode (res w) \<and>
      body_sent (res (validateApiKey w)) = body_sent (res w))"
    using validateApiKey_statuses [of w] by auto
  have d: "(finished (res (verifyDomain U w)) \<noteq> finished (res w) \<longrightarrow>
      statusCode (res (verifyDomain U w)) \<in> {401, 403, 500}) \<and>
     (finished (res (verifyDomain U w)) = finished (res w) \<longrightarrow>
      statusCode (res (verifyDomain U w)) = statusCode (res w) \<and>
      body_sent (res (verifyDomain U w)) = body_sent (res w))"
    using verifyDomain_statuses [of U w] by auto
  from a b c d trackApiUsage_statuses [of w] show ?thesis
    by blast
qed

theorem storage_failure_500_witness:
  "authorization (req world_down) = Some ''Bearer k-live-1'' \<and>
   startsWith ''Bearer k-live-1'' ''Bearer '' \<and>
   apiKey (req world_down) = Some key1 \<and>
   \<not> startsWith (path (req world_down)) ''/api/admin'' \<and>
   path (req world_down) \<noteq> ''/api/v1/keys/verify'' \<and>
   fault (db world_down) = Some (Exn ''Error: connect ECONNREFUSED'') \<and>
   statusCode (res (validateApiKey world_down)) = 500 \<and>
   next_calls (validateApiKey world_down) = 0 \<and>
   statusCode (res (verifyDomain URL_hostname world_down)) = 500 \<and>
   next_calls (verifyDomain URL_hostname world_down) = 0"
  using storage_failure_500 [of world_down URL_hostname]
  by (simp add: world_down_def world_keyed_def world1_def req1_def db_down_def startsWith_def)

section \<open>verifyDomain\<close>

text \<open>
  C5. On a path that starts with \<open>/api/admin\<close> or equals \<open>/api/v1/keys/verify\<close>,
  \<open>verifyDomain\<close> does nothing but call \<open>next\<close> once: no query for integrations, the
  response untouched (so no 403 and no 500), whatever the Origin and Referer headers,
  the configured integrations and the state of the store are.
\<close>

theorem verifyDomain_bypass:
  assumes "startsWith (path (req w)) ''/api/admin'' \<or> path (req w) = ''/api/v1/keys/verify''"
  shows "verifyDomain U w = call_next w \<and>
         next_calls (verifyDomain U w) = Suc (next_calls w) \<and>
         queries (verifyDomain U w) = queries w \<and>
         res (verifyDomain U w) = res w \<and>
         db (verifyDomain U w) = db w \<and>
         logs (verifyDomain U w) = logs w \<and>
         (\<forall>og rf ints ft.
            next_calls (verifyDomain U
               (w\<lparr>req := (req w)\<lparr>origin := og, referer := rf\<rparr>,
                  db := (db w)\<lparr>agentIntegrations := ints, fault := ft\<rparr>\<rparr>)) = Suc (next_calls w) \<and>
            queries (verifyDomain U
               (w\<lparr>req := (req w)\<lparr>origin := og, referer := rf\<rparr>,
                  db := (db w)\<lparr>agentIntegrations := ints, fault := ft\<rparr>\<rparr>)) = queries w \<and>
            res (verifyDomain U
               (w\<lparr>req := (req w)\<lparr>origin := og, referer := rf\<rparr>,
                  db := (db w)\<lparr>agentIntegrations := ints, fault := ft\<rparr>\<rparr>)) = res w)"
  using assms by (auto simp: verifyDomain_def call_next_def split: option.splits)

theorem verifyDomain_bypass_witness:
  "(startsWith (path (req (world_down\<lparr>req := (req world_down)\<lparr>path := ''/api/admin/keys''\<rparr>\<rparr>)))
      ''/api/admin'' \<or>
    path (req (world_down\<lparr>req := (req world_down)\<lparr>path := ''/api/admin/keys''\<rparr>\<rparr>))
      = ''/api/v1/keys/verify'') \<and>
   next_calls (verifyDomain URL_hostname
      (world_down\<lparr>req := (req world_down)\<lparr>path := ''/api/admin/keys''\<rparr>\<rparr>)) = 1 \<and>
   queries (verifyDomain URL_hostname
      (world_down\<lparr>req := (req world_down)\<lparr>path := ''/api/admin/keys''\<rparr>\<rparr>)) = [] \<and>
   res (verifyDomain URL_hostname
      (world_down\<lparr>req := (req world_down)\<lparr>path := ''/api/admin/keys''\<rparr>\<rparr>)) = res1"
  using verifyDomain_bypass [of "world_down\<lparr>req := (req world_down)\<lparr>path := ''/api/admin/keys''\<rparr>\<rparr>"
                               URL_hostname]
  by (simp add: world_down_def world_keyed_def world1_def req1_def startsWith_def call_next_def)

text \<open>The callback of \<open>some\<close>, in the words of the domain rule.\<close>

lemma startsWith_star_dot: "startsWith d ''*.'' \<longleftrightarrow> (\<exists>D. d = ''*.'' @ D)"
  by (auto simp: startsWith_prefix prefix_def)

lemma domain_allows_iff:
  "domain_allows h i \<longleftrightarrow>
     ai_domain i = h \<or> (\<exists>D. ai_domain i = ''*.'' @ D \<and> suffix (''.'' @ D) h)"
  by (auto simp: domain_allows_def startsWith_star_dot endsWith_suffix substring_def)

lemma wildcard_examples:
  assumes "ai_domain i = ''*.example.com''"
  shows "domain_allows ''sub.example.com'' i"
    and "\<not> domain_allows ''example.com'' i"
    and "\<not> domain_allows ''evilexample.com'' i"
  using assms by (simp_all add: domain_allows_def startsWith_def endsWith_def substring_def)

lemma verifyDomain_checked:
  assumes "apiKey (req w) = Some k"
    and "\<not> startsWith (path (req w)) ''/api/admin''" and "path (req w) \<noteq> ''/api/v1/keys/verify''"
    and "fault (db w) = None"
    and "ints = filter (\<lambda>r. ai_apiKeyId r = ak_id k) (agentIntegrations (db w))"
    and "source = (if truthy (origin (req w)) then origin (req w) else referer (req w))"
    and "w1 = w\<lparr>queries := queries w @ [''getIntegrationsByApiKeyId'']\<rparr>"
  shows "verifyDomain U w =
    (if ints = []
     then res_json (JObj [(''error'', JStr ''No integrations configured for this API key'')])
            (res_status 403 w1)
     else if \<not> truthy source
     then res_json (JObj [(''error'', JStr ''This domain is not authorized to use this API key'')])
            (res_status 403 (log (''Domain verification failed: '' @ render_source source) w1))
     else case U (the source) of
            Inl e \<Rightarrow>
              res_json (JObj [(''error'', JStr ''Error verifying domain'')])
                (res_status 500 (log (''Domain verification error: '' @ render e) w1))
          | Inr h \<Rightarrow>
              if \<exists>i \<in> set ints. domain_allows h i
              then call_next w1
              else res_json
                     (JObj [(''error'', JStr ''This domain is not authorized to use this API key'')])
                     (res_status 403
                        (log (''Domain verification failed: '' @ render_source source) w1)))"
proof -
  have q: "PgStorage_getIntegrationsByApiKeyId (db w) (ak_id k) = Inr ints"
    using assms(4,5)
    by (simp add: PgStorage_getIntegrationsByApiKeyId_def await_def select_where_def)
  have src: "or_else (origin (req w)) (referer (req w)) = source"
    using assms(6) by (simp add: or_else_def)
  have len: "(length ints = 0) = (ints = [])"
    by simp
  show ?thesis
    unfolding verifyDomain_def assms(7)
    using assms(1,2,3)
    by (cases "U (the source)")
       (simp_all add: q src len Let_def list_ex_iff del: length_0_conv)
qed


text \<open>
  C1 (amended). For a keyed request off the bypass paths, with a store that answers: when
  the key has at least one integration, \<open>verifyDomain\<close> calls \<open>next\<close> if and only if the
  header it reads (Origin, or Referer when Origin is absent or empty) is there, the URL
  constructor accepts it, and some integration domain equals its hostname or is \<open>*.D\<close> with
  the hostname ending in \<open>.D\<close>; \<open>*.example.com\<close> allows \<open>sub.example.com\<close> and allows
  neither \<open>example.com\<close> nor \<open>evilexample.com\<close>. When it calls \<open>next\<close> the response is
  untouched. It answers 403 when no domain matches, when there is neither header, and when
  the key has no integration; it answers 500 when the URL constructor refuses the header.
\<close>

theorem verifyDomain_decision:
  assumes "apiKey (req w) = Some k"
    and "\<not> startsWith (path (req w)) ''/api/admin''" and "path (req w) \<noteq> ''/api/v1/keys/verify''"
    and "fault (db w) = None"
    and "ints = filter (\<lambda>r. ai_apiKeyId r = ak_id k) (agentIntegrations (db w))"
    and "source = (if truthy (origin (req w)) then origin (req w) else referer (req w))"
  shows
   "(ints \<noteq> [] \<longrightarrow>
      (next_calls (verifyDomain U w) = Suc (next_calls w) \<longleftrightarrow>
       (\<exists>s h. source = Some s \<and> s \<noteq> [] \<and> U s = Inr h \<and>
          (\<exists>i \<in> set ints. ai_domain i = h \<or>
                           (\<exists>D. ai_domain i = ''*.'' @ D \<and> suffix (''.'' @ D) h))))) \<and>
    (next_calls (verifyDomain U w) = Suc (next_calls w) \<longrightarrow> res (verifyDomain U w) = res w) \<and>
    (next_calls (verifyDomain U w) \<noteq> Suc (next_calls w) \<longrightarrow>
       next_calls (verifyDomain U w) = next_calls w \<and>
       finished (res (verifyDomain U w)) = Suc (finished (res w)) \<and>
       statusCode (res (verifyDomain U w)) \<in> {403, 500}) \<and>
    (ints = [] \<longrightarrow>
       statusCode (res (verifyDomain U w)) = 403 \<and>
       next_calls (verifyDomain U w) = next_calls w) \<and>
    (ints \<noteq> [] \<and> \<not> truthy source \<longrightarrow>
       statusCode (res (verifyDomain U w)) = 403 \<and>
       next_calls (verifyDomain U w) = next_calls w) \<and>
    (\<forall>s h. ints \<noteq> [] \<and> source = Some s \<and> s \<noteq> [] \<and> U s = Inr h \<and>
            \<not> (\<exists>i \<in> set ints. ai_domain i = h \<or>
                           (\<exists>D. ai_domain i = ''*.'' @ D \<and> suffix (''.'' @ D) h)) \<longrightarrow>
       statusCode (res (verifyDomain U w)) = 403 \<and>
       next_calls (verifyDomain U w) = next_calls w) \<and>
    (\<forall>s e. ints \<noteq> [] \<and> source = Some s \<and> s \<noteq> [] \<and> U s = Inl e \<longrightarrow>
       statusCode (res (verifyDomain U w)) = 500 \<and>
       next_calls (verifyDomain U w) = next_calls w) \<and>
    (\<forall>i. ai_domain i = ''*.example.com'' \<longrightarrow>
       domain_allows ''sub.example.com'' i \<and>
       \<not> domain_allows ''example.com'' i \<and>
       \<not> domain_allows ''evilexample.com'' i)"
proof -
  define w1 where "w1 = w\<lparr>queries := queries w @ [''getIntegrationsByApiKeyId'']\<rparr>"
  note vd = verifyDomain_checked [OF assms w1_def, of U]
  let ?v = "verifyDomain U w"
  let ?M = "\<lambda>h. \<exists>i \<in> set ints. ai_domain i = h \<or>
                           (\<exists>D. ai_domain i = ''*.'' @ D \<and> suffix (''.'' @ D) h)"
  have m: "(\<exists>i \<in> set ints. domain_allows h i) = ?M h" for h
    by (simp add: domain_allows_iff)
  have wild: "\<forall>i. ai_domain i = ''*.example.com'' \<longrightarrow>
       domain_allows ''sub.example.com'' i \<and>
       \<not> domain_allows ''example.com'' i \<and>
       \<not> domain_allows ''evilexample.com'' i"
    using wildcard_examples by blast
  show ?thesis
  proof (cases "ints = []")
    case True
    then have "?v = res_json (JObj [(''error'', JStr ''No integrations configured for this API key'')])
                      (res_status 403 w1)"
      by (simp add: vd)
    then have "statusCode (res ?v) = 403" "next_calls ?v = next_calls w"
      "finished (res ?v) = Suc (finished (res w))"
      by (simp_all add: res_json_def res_status_def w1_def)
    with True wild show ?thesis
      by simp
  next
    case ne: False
    show ?thesis
    proof (cases "truthy source")
      case False
      then have none: "\<not> (\<exists>s. source = Some s \<and> s \<noteq> [])"
        by (auto simp: truthy_def)
      from ne False have "?v =
          res_json (JObj [(''error'', JStr ''This domain is not authorized to use this API key'')])
            (res_status 403 (log (''Domain verification failed: '' @ render_source source) w1))"
        by (simp add: vd)
      then have "statusCode (res ?v) = 403" "next_calls ?v = next_calls w"
        "finished (res ?v) = Suc (finished (res w))"
        by (simp_all add: res_json_def res_status_def log_def w1_def)
      with ne False none wild show ?thesis
        by simp
    next
      case True
      then obtain s where s: "source = Some s" "s \<noteq> []"
        by (auto simp: truthy_def)
      show ?thesis
      proof (cases "U s")
        case (Inl e)
        with ne True s have "?v =
            res_json (JObj [(''error'', JStr ''Error verifying domain'')])
              (res_status 500 (log (''Domain verification error: '' @ render e) w1))"
          by (simp add: vd)
        then have "statusCode (res ?v) = 500" "next_calls ?v = next_calls w"
          "finished (res ?v) = Suc (finished (res w))"
          by (simp_all add: res_json_def res_status_def log_def w1_def)
        with ne True s Inl wild show ?thesis
          by simp
      next
        case (Inr h)
        show ?thesis
        proof (cases "?M h")
          case yes: True
          then have "\<exists>i \<in> set ints. domain_allows h i"
            using m by blast
          with ne True s Inr have "?v = call_next w1"
            by (simp add: vd)
          then have "next_calls ?v = Suc (next_calls w)" "res ?v = res w"
            by (simp_all add: call_next_def w1_def)
          with ne True s Inr yes wild show ?thesis
            by simp
        next
          case no: False
          then have "\<not> (\<exists>i \<in> set ints. domain_allows h i)"
            using m by blast
          with ne True s Inr have "?v =
              res_json (JObj [(''error'', JStr ''This domain is not authorized to use this API key'')])
                (res_status 403 (log (''Domain verification failed: '' @ render_source source) w1))"
            by (simp add: vd)
          then have "statusCode (res ?v) = 403" "next_calls ?v = next_calls w"
            "finished (res ?v) = Suc (finished (res w))"
            by (simp_all add: res_json_def res_status_def log_def w1_def)
          with ne True s Inr no wild show ?thesis
            by simp
        qed
      qed
    qed
  qed
qed

theorem verifyDomain_decision_witness:
  "apiKey (req world_keyed) = Some key1 \<and>
   \<not> startsWith (path (req world_keyed)) ''/api/admin'' \<and>
   path (req world_keyed) \<noteq> ''/api/v1/keys/verify'' \<and>
   fault (db world_keyed) = None \<and>
   [integration1, integration2] =
     filter (\<lambda>r. ai_apiKeyId r = ak_id key1) (agentIntegrations (db world_keyed)) \<and>
   Some ''https://shop.example.com'' =
     (if truthy (origin (req world_keyed)) then origin (req world_keyed)
      else referer (req world_keyed)) \<and>
   URL_hostname ''https://shop.example.com'' = Inr ''shop.example.com'' \<and>
   next_calls (verifyDomain URL_hostname world_keyed) = Suc (next_calls world_keyed) \<and>
   res (verifyDomain URL_hostname world_keyed) = res world_keyed"
proof -
  have hyps: "apiKey (req world_keyed) = Some key1"
    "\<not> startsWith (path (req world_keyed)) ''/api/admin''"
    "path (req world_keyed) \<noteq> ''/api/v1/keys/verify''"
    "fault (db world_keyed) = None"
    "[integration1, integration2] =
       filter (\<lambda>r. ai_apiKeyId r = ak_id key1) (agentIntegrations (db world_keyed))"
    "Some ''https://shop.example.com'' =
       (if truthy (origin (req world_keyed)) then origin (req world_keyed)
        else referer (req world_keyed))"
    by (simp_all add: world_keyed_def world1_def req1_def db1_def key1_def integration1_def
          integration2_def startsWith_def truthy_def)
  have url: "URL_hostname ''https://shop.example.com'' = Inr ''shop.example.com''"
    by (simp add: URL_hostname_def startsWith_def)
  have match: "ai_domain integration1 = ''shop.example.com''"
    by (simp add: integration1_def)
  from verifyDomain_decision [OF hyps, of URL_hostname] url match
  have "next_calls (verifyDomain URL_hostname world_keyed) = Suc (next_calls world_keyed) \<and>
        res (verifyDomain URL_hostname world_keyed) = res world_keyed"
    by auto
  with hyps url show ?thesis
    by simp
qed

text \<open>
  The specification promises 403 in every case without a match. A request with
  \<open>Origin: null\<close> has a key with integrations and no match, and gets 500: the URL
  constructor throws, and the handler of the \<open>try\<close> block answers.
\<close>

theorem verifyDomain_null_origin_500:
  "apiKey (req world_null_origin) = Some key1 \<and>
   \<not> startsWith (path (req world_null_origin)) ''/api/admin'' \<and>
   path (req world_null_origin) \<noteq> ''/api/v1/keys/verify'' \<and>
   PgStorage_getIntegrationsByApiKeyId (db world_null_origin) (ak_id key1)
     = Inr [integration1, integration2] \<and>
   origin (req world_null_origin) = Some ''null'' \<and>
   statusCode (res (verifyDomain URL_hostname world_null_origin)) = 500 \<and>
   statusCode (res (verifyDomain URL_hostname world_null_origin)) \<noteq> 403 \<and>
   next_calls (verifyDomain URL_hostname world_null_origin) = next_calls world_null_origin"
proof -
  have hyps: "apiKey (req world_null_origin) = Some key1"
    "\<not> startsWith (path (req world_null_origin)) ''/api/admin''"
    "path (req world_null_origin) \<noteq> ''/api/v1/keys/verify''"
    "fault (db world_null_origin) = None"
    "[integration1, integration2] =
       filter (\<lambda>r. ai_apiKeyId r = ak_id key1) (agentIntegrations (db world_null_origin))"
    "Some ''null'' =
       (if truthy (origin (req world_null_origin)) then origin (req world_null_origin)
        else referer (req world_null_origin))"
    by (simp_all add: world_null_origin_def world1_def req1_def db1_def key1_def integration1_def
          integration2_def startsWith_def truthy_def)
  have q: "PgStorage_getIntegrationsByApiKeyId (db world_null_origin) (ak_id key1)
             = Inr [integration1, integration2]"
    using hyps(4,5)
    by (simp add: PgStorage_getIntegrationsByApiKeyId_def await_def select_where_def)
  have og: "origin (req world_null_origin) = Some ''null''"
    by (simp add: world_null_origin_def req1_def)
  have url: "URL_hostname ''null'' = Inl (Exn ''TypeError: Invalid URL'')"
    by (simp add: URL_hostname_def startsWith_def)
  have "verifyDomain URL_hostname world_null_origin =
          res_json (JObj [(''error'', JStr ''Error verifying domain'')])
            (res_status 500
               (log (''Domain verification error: '' @ render (Exn ''TypeError: Invalid URL''))
                  (world_null_origin\<lparr>queries :=
                     queries world_null_origin @ [''getIntegrationsByApiKeyId'']\<rparr>)))"
    by (simp add: verifyDomain_checked [OF hyps refl, of URL_hostname] url truthy_def)
  then have "statusCode (res (verifyDomain URL_hostname world_null_origin)) = 500"
    "next_calls (verifyDomain URL_hostname world_null_origin) = next_calls world_null_origin"
    by (simp_all add: res_json_def res_status_def log_def)
  with hyps(1,2,3) q og show ?thesis
    by simp
qed

section \<open>trackApiUsage\<close>

text \<open>With the framework's function in place nothing downstream records usage.\<close>

lemma act_native:
  assumes "end_method (res w) = NativeEnd"
  shows "end_method (res (act a w)) = NativeEnd \<and>
         usage_calls (act a w) = usage_calls w \<and>
         db (act a w) = db w"
  using assms by (cases a) (simp_all add: res_status_def res_json_def res_end_native)

lemma downstream_native:
  assumes "end_method (res w) = NativeEnd"
  shows "end_method (res (downstream acts w)) = NativeEnd \<and>
         usage_calls (downstream acts w) = usage_calls w \<and>
         db (downstream acts w) = db w"
  using assms
proof (induction acts arbitrary: w)
  case Nil
  then show ?case by (simp add: downstream_def)
next
  case (Cons a acts)
  from act_native [OF Cons.prems, of a] Cons.IH [of "act a w"]
  show ?case by (simp add: downstream_def)
qed

lemma downstream_Cons: "downstream (a # acts) w = downstream acts (act a w)"
  by (simp add: downstream_def)

lemma downstream_append: "downstream (xs @ ys) w = downstream ys (downstream xs w)"
  by (simp add: downstream_def)

lemma finished_downstream:
  "finished (res (downstream acts w)) = finished (res w) + length (filter finishes acts)"
proof (induction acts arbitrary: w)
  case Nil
  then show ?case by (simp add: downstream_def)
next
  case (Cons a acts)
  have "finished (res (act a w)) = finished (res w) + (if finishes a then 1 else 0)"
    by (cases a) (simp_all add: res_status_def res_json_def)
  with Cons.IH [of "act a w"] show ?case
    by (simp add: downstream_Cons)
qed

text \<open>One call of \<open>res.end\<close> while the closure of \<open>trackApiUsage\<close> is in place.\<close>

lemma res_end_hooked:
  assumes "end_method (res w) = TrackingEnd NativeEnd k"
  shows "usage_calls (res_end w) = usage_calls w @
           [\<lparr>au_apiKeyId = ak_id k, au_endpoint = originalUrl (req w),
             au_statusCode = toString (statusCode (res w)),
             au_requestPayload = (if req_method (req w) = ''GET'' then JNull else body (req w))\<rparr>]"
    and "apiUsage (db (res_end w)) =
           (if fault (db w) = None
            then apiUsage (db w) @
              [\<lparr>au_apiKeyId = ak_id k, au_endpoint = originalUrl (req w),
                au_statusCode = toString (statusCode (res w)),
                au_requestPayload = (if req_method (req w) = ''GET'' then JNull else body (req w))\<rparr>]
            else apiUsage (db w))"
    and "end_method (res (res_end w)) = NativeEnd"
    and "finished (res (res_end w)) = Suc (finished (res w))"
  using assms
  by (simp_all add: res_end_tracking res_end_native recordApiUsage_catch_rows)

lemma act_hooked_passive:
  assumes "end_method (res w) = TrackingEnd NativeEnd k" and "\<not> finishes a"
  shows "end_method (res (act a w)) = TrackingEnd NativeEnd k \<and>
         usage_calls (act a w) = usage_calls w \<and>
         db (act a w) = db w \<and>
         originalUrl (req (act a w)) = originalUrl (req w) \<and>
         req_method (req (act a w)) = req_method (req w)"
  using assms by (cases a) (simp_all add: res_status_def)

lemma downstream_hooked_passive:
  assumes "end_method (res w) = TrackingEnd NativeEnd k" and "\<forall>a \<in> set acts. \<not> finishes a"
  shows "end_method (res (downstream acts w)) = TrackingEnd NativeEnd k \<and>
         usage_calls (downstream acts w) = usage_calls w \<and>
         db (downstream acts w) = db w \<and>
         originalUrl (req (downstream acts w)) = originalUrl (req w) \<and>
         req_method (req (downstream acts w)) = req_method (req w)"
  using assms
proof (induction acts arbitrary: w)
  case Nil
  then show ?case by (simp add: downstream_def)
next
  case (Cons a acts)
  from Cons.prems have "\<not> finishes a" and rest: "\<forall>a \<in> set acts. \<not> finishes a"
    by simp_all
  from act_hooked_passive [OF Cons.prems(1) \<open>\<not> finishes a\<close>]
    Cons.IH [of "act a w"] rest
  show ?case by (simp add: downstream_Cons)
qed

lemma act_hooked_finishing:
  assumes "end_method (res w) = TrackingEnd NativeEnd k" and "finishes a"
  shows "usage_calls (act a w) = usage_calls w @
           [\<lparr>au_apiKeyId = ak_id k, au_endpoint = originalUrl (req w),
             au_statusCode = toString (statusCode (res w)),
             au_requestPayload = (if req_method (req w) = ''GET'' then JNull else body (req w))\<rparr>]"
    and "apiUsage (db (act a w)) =
           (if fault (db w) = None
            then apiUsage (db w) @
              [\<lparr>au_apiKeyId = ak_id k, au_endpoint = originalUrl (req w),
                au_statusCode = toString (statusCode (res w)),
                au_requestPayload = (if req_method (req w) = ''GET'' then JNull else body (req w))\<rparr>]
            else apiUsage (db w))"
    and "end_method (res (act a w)) = NativeEnd"
proof -
  have "usage_calls (act a w) = usage_calls w @
           [\<lparr>au_apiKeyId = ak_id k, au_endpoint = originalUrl (req w),
             au_statusCode = toString (statusCode (res w)),
             au_requestPayload = (if req_method (req w) = ''GET'' then JNull else body (req w))\<rparr>] \<and>
        apiUsage (db (act a w)) =
           (if fault (db w) = None
            then apiUsage (db w) @
              [\<lparr>au_apiKeyId = ak_id k, au_endpoint = originalUrl (req w),
                au_statusCode = toString (statusCode (res w)),
                au_requestPayload = (if req_method (req w) = ''GET'' then JNull else body (req w))\<rparr>]
            else apiUsage (db w)) \<and>
        end_method (res (act a w)) = NativeEnd"
  proof (cases a)
    case End
    with res_end_hooked [OF assms(1)] show ?thesis by simp
  next
    case (Json b)
    let ?w = "w\<lparr>res := (res w)\<lparr>body_sent := Some b\<rparr>\<rparr>"
    have "end_method (res ?w) = TrackingEnd NativeEnd k"
      using assms(1) by simp
    from res_end_hooked [OF this] Json show ?thesis
      by (simp add: res_json_def)
  next
    case (SetStatus c)
    with assms(2) show ?thesis by simp
  next
    case (SetBody b)
    with assms(2) show ?thesis by simp
  qed
  then show "usage_calls (act a w) = usage_calls w @
           [\<lparr>au_apiKeyId = ak_id k, au_endpoint = originalUrl (req w),
             au_statusCode = toString (statusCode (res w)),
             au_requestPayload = (if req_method (req w) = ''GET'' then JNull else body (req w))\<rparr>]"
    and "apiUsage (db (act a w)) =
           (if fault (db w) = None
            then apiUsage (db w) @
              [\<lparr>au_apiKeyId = ak_id k, au_endpoint = originalUrl (req w),
                au_statusCode = toString (statusCode (res w)),
                au_requestPayload = (if req_method (req w) = ''GET'' then JNull else body (req w))\<rparr>]
            else apiUsage (db w))"
    and "end_method (res (act a w)) = NativeEnd"
    by simp_all
qed

lemma trackApiUsage_installs:
  assumes "apiKey (req w) = Some k"
  shows "trackApiUsage w =
           call_next (w\<lparr>res := (res w)\<lparr>end_method := TrackingEnd (end_method (res w)) k\<rparr>\<rparr>)"
  using assms by (simp add: trackApiUsage_def Let_def)

text \<open>The first finishing action splits what runs downstream.\<close>

lemma first_finishing:
  assumes "\<exists>a \<in> set acts. finishes a"
  shows "\<exists>pre a post. acts = pre @ a # post \<and> finishes a \<and> (\<forall>b \<in> set pre. \<not> finishes b)"
  using assms by (metis split_list_first_prop)


lemma downstream_hooked:
  assumes "end_method (res w) = TrackingEnd NativeEnd k"
    and "\<forall>b \<in> set pre. \<not> finishes b" and "finishes a"
    and "w1 = downstream pre w"
    and "u = \<lparr>au_apiKeyId = ak_id k, au_endpoint = originalUrl (req w),
               au_statusCode = toString (statusCode (res w1)),
               au_requestPayload = (if req_method (req w) = ''GET'' then JNull else body (req w1))\<rparr>"
  shows "usage_calls (downstream (pre @ a # post) w) = usage_calls w @ [u]"
    and "apiUsage (db (downstream (pre @ a # post) w)) =
           (if fault (db w) = None then apiUsage (db w) @ [u] else apiUsage (db w))"
    and "end_method (res (downstream (pre @ a # post) w)) = NativeEnd"
proof -
  note p = downstream_hooked_passive [OF assms(1,2), folded assms(4)]
  from p have h1: "end_method (res w1) = TrackingEnd NativeEnd k"
    by simp
  note f = act_hooked_finishing [OF h1 assms(3)]
  note n = downstream_native [OF f(3), of post]
  have eq: "downstream (pre @ a # post) w = downstream post (act a w1)"
    by (simp add: downstream_append downstream_Cons assms(4))
  show "usage_calls (downstream (pre @ a # post) w) = usage_calls w @ [u]"
    using p f(1) n by (simp add: eq assms(5))
  show "apiUsage (db (downstream (pre @ a # post) w)) =
           (if fault (db w) = None then apiUsage (db w) @ [u] else apiUsage (db w))"
    using p f(2) n by (simp add: eq assms(5))
  show "end_method (res (downstream (pre @ a # post) w)) = NativeEnd"
    using n by (simp add: eq)
qed

text \<open>
  C6 (amended). For a request with a key attached and the framework's own \<open>res.end\<close> in
  place, \<open>trackApiUsage\<close> calls \<open>next\<close>, and whatever runs downstream, as soon as it
  finishes the response at least once, \<open>storage.recordApiUsage\<close> has been called exactly
  once, never zero times and never twice, however often \<open>res.end\<close> is called: the closure
  puts the original function back before it calls \<open>res.end\<close> again. Exactly one usage row
  is added when the store accepts the insertion, and none when it rejects it.
\<close>

theorem usage_recorded_once:
  assumes "apiKey (req w) = Some k" and "end_method (res w) = NativeEnd"
    and "\<exists>a \<in> set acts. finishes a"
  shows "next_calls (trackApiUsage w) = Suc (next_calls w) \<and>
         (\<exists>u. usage_calls (downstream acts (trackApiUsage w)) = usage_calls w @ [u] \<and>
              (fault (db w) = None \<longrightarrow>
                 apiUsage (db (downstream acts (trackApiUsage w))) = apiUsage (db w) @ [u]) \<and>
              (fault (db w) \<noteq> None \<longrightarrow>
                 apiUsage (db (downstream acts (trackApiUsage w))) = apiUsage (db w))) \<and>
         end_method (res (downstream acts (trackApiUsage w))) = NativeEnd \<and>
         finished (res (downstream acts (trackApiUsage w))) =
           finished (res w) + length (filter finishes acts)"
proof -
  let ?w0 = "trackApiUsage w"
  have w0: "?w0 = call_next (w\<lparr>res := (res w)\<lparr>end_method := TrackingEnd NativeEnd k\<rparr>\<rparr>)"
    using trackApiUsage_installs [OF assms(1)] assms(2) by simp
  then have hooked: "end_method (res ?w0) = TrackingEnd NativeEnd k"
    and same: "usage_calls ?w0 = usage_calls w" "db ?w0 = db w"
      "finished (res ?w0) = finished (res w)"
    and nxt: "next_calls ?w0 = Suc (next_calls w)"
    by (simp_all add: call_next_def)
  from first_finishing [OF assms(3)] obtain pre a post where
    split: "acts = pre @ a # post" "finishes a" "\<forall>b \<in> set pre. \<not> finishes b"
    by blast
  define u where "u = \<lparr>au_apiKeyId = ak_id k, au_endpoint = originalUrl (req ?w0),
      au_statusCode = toString (statusCode (res (downstream pre ?w0))),
      au_requestPayload = (if req_method (req ?w0) = ''GET'' then JNull
                           else body (req (downstream pre ?w0)))\<rparr>"
  note d = downstream_hooked [OF hooked split(3) split(2) refl u_def, of post]
  have c1: "usage_calls (downstream acts ?w0) = usage_calls w @ [u]"
    using d(1) same by (simp add: split(1))
  have c2: "fault (db w) = None \<longrightarrow>
      apiUsage (db (downstream acts ?w0)) = apiUsage (db w) @ [u]"
    using d(2) same by (simp add: split(1))
  have c3: "fault (db w) \<noteq> None \<longrightarrow>
      apiUsage (db (downstream acts ?w0)) = apiUsage (db w)"
    using d(2) same by (simp add: split(1))
  have c4: "end_method (res (downstream acts ?w0)) = NativeEnd"
    using d(3) by (simp add: split(1))
  have c5: "finished (res (downstream acts ?w0)) =
      finished (res w) + length (filter finishes acts)"
    using same by (simp add: finished_downstream)
  from c1 c2 c3 have "\<exists>u. usage_calls (downstream acts ?w0) = usage_calls w @ [u] \<and>
      (fault (db w) = None \<longrightarrow>
         apiUsage (db (downstream acts ?w0)) = apiUsage (db w) @ [u]) \<and>
      (fault (db w) \<noteq> None \<longrightarrow>
         apiUsage (db (downstream acts ?w0)) = apiUsage (db w))"
    by (intro exI [of _ u] conjI)
  with nxt c4 c5 show ?thesis
    by (intro conjI)
qed

text \<open>
  C7 (amended). For a request with a key attached, when the store accepts the insertion,
  the usage row added at the first finishing action has: \<open>apiKeyId\<close> the id of the attached
  key, \<open>endpoint\<close> the request's original URL, \<open>statusCode\<close> the decimal string of the
  status code at that moment, \<open>requestPayload\<close> the request body at that moment, or null
  when the request's method is GET. The row has no column for the method.
\<close>

theorem usage_record_fields:
  assumes "apiKey (req w) = Some k" and "end_method (res w) = NativeEnd"
    and "\<forall>b \<in> set pre. \<not> finishes b" and "finishes a"
    and "fault (db w) = None"
    and "w1 = downstream pre (trackApiUsage w)"
  shows "apiUsage (db (downstream (pre @ a # post) (trackApiUsage w))) =
           apiUsage (db w) @
             [\<lparr>au_apiKeyId = ak_id k,
               au_endpoint = originalUrl (req w),
               au_statusCode = toString (statusCode (res w1)),
               au_requestPayload =
                 (if req_method (req w) = ''GET'' then JNull else body (req w1))\<rparr>] \<and>
         usage_calls (downstream (pre @ a # post) (trackApiUsage w)) =
           usage_calls w @
             [\<lparr>au_apiKeyId = ak_id k,
               au_endpoint = originalUrl (req w),
               au_statusCode = toString (statusCode (res w1)),
               au_requestPayload =
                 (if req_method (req w) = ''GET'' then JNull else body (req w1))\<rparr>]"
proof -
  let ?w0 = "trackApiUsage w"
  have w0: "?w0 = call_next (w\<lparr>res := (res w)\<lparr>end_method := TrackingEnd NativeEnd k\<rparr>\<rparr>)"
    using trackApiUsage_installs [OF assms(1)] assms(2) by simp
  then have hooked: "end_method (res ?w0) = TrackingEnd NativeEnd k"
    and same: "usage_calls ?w0 = usage_calls w" "db ?w0 = db w" "req ?w0 = req w"
    by (simp_all add: call_next_def)
  note d = downstream_hooked [OF hooked assms(3) assms(4) assms(6) refl, of post]
  show ?thesis
    using d(1,2) same assms(5) by simp
qed


lemma toString_examples:
  "toString 200 = ''200''" "toString 201 = ''201''" "toString 403 = ''403''" "toString 7 = ''7''"
  by (simp_all add: toString.simps digit_def)

theorem usage_recorded_once_witness:
  "apiKey (req world_keyed) = Some key1 \<and>
   end_method (res world_keyed) = NativeEnd \<and>
   (\<exists>a \<in> set [SetStatus 201, Json (JObj []), End]. finishes a) \<and>
   length (usage_calls (downstream [SetStatus 201, Json (JObj []), End] (trackApiUsage world_keyed)))
     = 1 \<and>
   length (apiUsage (db (downstream [SetStatus 201, Json (JObj []), End] (trackApiUsage world_keyed))))
     = 1 \<and>
   finished (res (downstream [SetStatus 201, Json (JObj []), End] (trackApiUsage world_keyed))) = 2"
proof -
  have hyps: "apiKey (req world_keyed) = Some key1" "end_method (res world_keyed) = NativeEnd"
    "\<exists>a \<in> set [SetStatus 201, Json (JObj []), End]. finishes a"
    by (simp_all add: world_keyed_def world1_def req1_def res1_def)
  have start: "usage_calls world_keyed = []" "apiUsage (db world_keyed) = []"
    "fault (db world_keyed) = None" "finished (res world_keyed) = 0"
    by (simp_all add: world_keyed_def world1_def db1_def res1_def)
  from usage_recorded_once [OF hyps] start
  have "length (usage_calls (downstream [SetStatus 201, Json (JObj []), End]
                  (trackApiUsage world_keyed))) = 1 \<and>
        length (apiUsage (db (downstream [SetStatus 201, Json (JObj []), End]
                  (trackApiUsage world_keyed)))) = 1 \<and>
        finished (res (downstream [SetStatus 201, Json (JObj []), End]
                  (trackApiUsage world_keyed))) = 2"
    by auto
  with hyps show ?thesis
    by simp
qed

text \<open>
  The specification promises a usage row for every completed request. When the store
  has become unreachable after the key was attached, the response completes and the
  table stays as it was; the rejection goes to the log.
\<close>

theorem usage_lost_when_store_down:
  "apiKey (req world_down) = Some key1 \<and>
   end_method (res world_down) = NativeEnd \<and>
   finished (res (downstream [End] (trackApiUsage world_down))) = Suc (finished (res world_down)) \<and>
   length (usage_calls (downstream [End] (trackApiUsage world_down))) = 1 \<and>
   apiUsage (db (downstream [End] (trackApiUsage world_down))) = apiUsage (db world_down) \<and>
   apiUsage (db (downstream [End] (trackApiUsage world_down))) = []"
proof -
  have k: "apiKey (req world_down) = Some key1" and n: "end_method (res world_down) = NativeEnd"
    and f: "fault (db world_down) \<noteq> None" and e: "apiUsage (db world_down) = []"
    and c: "usage_calls world_down = []"
    by (simp_all add: world_down_def world_keyed_def world1_def req1_def res1_def db_down_def
          db1_def)
  have hooked: "end_method (res (trackApiUsage world_down)) = TrackingEnd NativeEnd key1"
    and same: "db (trackApiUsage world_down) = db world_down"
      "usage_calls (trackApiUsage world_down) = usage_calls world_down"
      "finished (res (trackApiUsage world_down)) = finished (res world_down)"
    using n by (simp_all add: trackApiUsage_installs [OF k] call_next_def)
  note r = res_end_hooked [OF hooked]
  from r(1,2,4) same f e c k n show ?thesis
    by (simp add: downstream_def)
qed

theorem usage_record_fields_witness:
  "apiKey (req world_keyed) = Some key1 \<and>
   end_method (res world_keyed) = NativeEnd \<and>
   \<not> finishes (SetStatus 201) \<and>
   finishes End \<and>
   fault (db world_keyed) = None \<and>
   apiUsage (db (downstream ([SetStatus 201] @ End # []) (trackApiUsage world_keyed))) =
     [\<lparr>au_apiKeyId = 1, au_endpoint = ''/api/v1/chat?x=1'', au_statusCode = ''201'',
       au_requestPayload = JObj [(''q'', JStr ''hi'')]\<rparr>]"
proof -
  have hyps: "apiKey (req world_keyed) = Some key1" "end_method (res world_keyed) = NativeEnd"
    "\<forall>b \<in> set [SetStatus 201]. \<not> finishes b" "finishes End" "fault (db world_keyed) = None"
    by (simp_all add: world_keyed_def world1_def req1_def res1_def db1_def)
  have vals: "apiUsage (db world_keyed) = []" "ak_id key1 = 1"
    "originalUrl (req world_keyed) = ''/api/v1/chat?x=1''"
    "req_method (req world_keyed) = ''POST''"
    by (simp_all add: world_keyed_def world1_def req1_def db1_def key1_def)
  have w1: "statusCode (res (downstream [SetStatus 201] (trackApiUsage world_keyed))) = 201"
    "body (req (downstream [SetStatus 201] (trackApiUsage world_keyed))) = JObj [(''q'', JStr ''hi'')]"
    by (simp_all add: downstream_def res_status_def trackApiUsage_def Let_def
          call_next_def world_keyed_def world1_def req1_def)
  from usage_record_fields [OF hyps refl, of "[]"] vals w1 toString_examples(2)
  have "apiUsage (db (downstream ([SetStatus 201] @ End # []) (trackApiUsage world_keyed))) =
     [\<lparr>au_apiKeyId = 1, au_endpoint = ''/api/v1/chat?x=1'', au_statusCode = ''201'',
       au_requestPayload = JObj [(''q'', JStr ''hi'')]\<rparr>]"
    by simp
  with hyps show ?thesis
    by simp
qed

text \<open>
  The specification lists the method among the contents of the row. The same request
  sent with POST and with PUT leaves the same row.
\<close>

theorem usage_record_hides_method:
  "req_method (req world_keyed) = ''POST'' \<and>
   req_method (req world_put) = ''PUT'' \<and>
   apiUsage (db (downstream [End] (trackApiUsage world_keyed))) =
     [\<lparr>au_apiKeyId = 1, au_endpoint = ''/api/v1/chat?x=1'', au_statusCode = ''200'',
       au_requestPayload = JObj [(''q'', JStr ''hi'')]\<rparr>] \<and>
   apiUsage (db (downstream [End] (trackApiUsage world_put))) =
     apiUsage (db (downstream [End] (trackApiUsage world_keyed)))"
proof -
  have a: "apiKey (req world_keyed) = Some key1" "end_method (res world_keyed) = NativeEnd"
    and b: "apiKey (req world_put) = Some key1" "end_method (res world_put) = NativeEnd"
    by (simp_all add: world_keyed_def world_put_def world1_def req1_def res1_def)
  have ha: "end_method (res (trackApiUsage world_keyed)) = TrackingEnd NativeEnd key1"
    using a(2) by (simp add: trackApiUsage_installs [OF a(1)] call_next_def)
  have hb: "end_method (res (trackApiUsage world_put)) = TrackingEnd NativeEnd key1"
    using b(2) by (simp add: trackApiUsage_installs [OF b(1)] call_next_def)
  have ta: "req (trackApiUsage world_keyed) = req world_keyed"
    "db (trackApiUsage world_keyed) = db world_keyed"
    "statusCode (res (trackApiUsage world_keyed)) = statusCode (res world_keyed)"
    by (simp_all add: trackApiUsage_installs [OF a(1)] call_next_def)
  have tb: "req (trackApiUsage world_put) = req world_put"
    "db (trackApiUsage world_put) = db world_put"
    "statusCode (res (trackApiUsage world_put)) = statusCode (res world_put)"
    by (simp_all add: trackApiUsage_installs [OF b(1)] call_next_def)
  have va: "apiUsage (db (res_end (trackApiUsage world_keyed))) =
     [\<lparr>au_apiKeyId = 1, au_endpoint = ''/api/v1/chat?x=1'', au_statusCode = ''200'',
       au_requestPayload = JObj [(''q'', JStr ''hi'')]\<rparr>]"
    unfolding res_end_hooked(2) [OF ha] ta
    by (simp add: toString_examples world_keyed_def world1_def req1_def res1_def db1_def key1_def)
  have vb: "apiUsage (db (res_end (trackApiUsage world_put))) =
     [\<lparr>au_apiKeyId = 1, au_endpoint = ''/api/v1/chat?x=1'', au_statusCode = ''200'',
       au_requestPayload = JObj [(''q'', JStr ''hi'')]\<rparr>]"
    unfolding res_end_hooked(2) [OF hb] tb
    by (simp add: toString_examples world_put_def world1_def req1_def res1_def db1_def key1_def)
  have m: "req_method (req world_keyed) = ''POST''" "req_method (req world_put) = ''PUT''"
    by (simp_all add: world_keyed_def world_put_def world1_def req1_def)
  from va vb m show ?thesis
    by (simp add: downstream_def)
qed

section \<open>The storage adapter\<close>

lemma order_by_desc_sorted:
  "sorted_wrt (\<lambda>a b. c b \<le> c a) (order_by_desc c rows)"
proof -
  have "sorted (map c (sort_key c rows))"
    by (rule sorted_sort_key)
  then have "sorted_wrt (\<lambda>a b. c a \<le> c b) (sort_key c rows)"
    by (simp add: sorted_map)
  then show ?thesis
    by (simp add: order_by_desc_def sorted_wrt_rev)
qed

lemma order_by_desc_mset: "mset (order_by_desc c rows) = mset rows"
  by (simp add: order_by_desc_def)

lemma PgStorage_portfolio:
  assumes "fault d = None"
  shows "PgStorage_getPortfolioItems d = Inr (portfolioItems d)"
    and "PgStorage_getPortfolioItem d i = Inr (List.find (\<lambda>r. pi_id r = i) (portfolioItems d))"
  using assms
  by (simp_all add: PgStorage_getPortfolioItems_def PgStorage_getPortfolioItem_def await_def
        select_where_def first_row_filter)

lemma PgStorage_blog:
  assumes "fault d = None"
  shows "PgStorage_getBlogPosts d = Inr (order_by_desc bp_publishDate (blogPosts d))"
    and "PgStorage_getBlogPost d i = Inr (List.find (\<lambda>r. bp_id r = i) (blogPosts d))"
  using assms
  by (simp_all add: PgStorage_getBlogPosts_def PgStorage_getBlogPost_def await_def
        select_where_def first_row_filter)

lemma PgStorage_agents:
  assumes "fault d = None"
  shows "PgStorage_getAgentById d s = Inr (List.find (\<lambda>r. ag_agentId r = s) (agents d))"
    and "PgStorage_getAgentsByUserId d s = Inr (filter (\<lambda>r. ag_userId r = s) (agents d))"
    and "PgStorage_updateAgentStatus now d s st =
           Inr (map_option (\<lambda>r. r\<lparr>ag_status := st, ag_updatedAt := now\<rparr>)
                  (List.find (\<lambda>r. ag_agentId r = s) (agents d)),
                d\<lparr>agents := map (\<lambda>r. if ag_agentId r = s
                                      then r\<lparr>ag_status := st, ag_updatedAt := now\<rparr> else r)
                                (agents d)\<rparr>)"
  using assms
  by (simp_all add: PgStorage_getAgentById_def PgStorage_getAgentsByUserId_def
        PgStorage_updateAgentStatus_def await_def select_where_def first_row_filter
        first_row_returning update_set_where_def Let_def)

lemma PgStorage_keys:
  assumes "fault d = None"
  shows "PgStorage_getApiKeyById d i = Inr (List.find (\<lambda>r. ak_id r = i) (apiKeys d))"
    and "PgStorage_getApiKeysByUserId d s = Inr (filter (\<lambda>r. ak_userId r = s) (apiKeys d))"
    and "PgStorage_validateApiKey d s =
           Inr (List.find (\<lambda>r. ak_key r = s \<and> ak_active r) (apiKeys d))"
    and "PgStorage_deactivateApiKey d i =
           Inr (map_option (\<lambda>r. r\<lparr>ak_active := False\<rparr>)
                  (List.find (\<lambda>r. ak_id r = i) (apiKeys d)),
                d\<lparr>apiKeys := map (\<lambda>r. if ak_id r = i then r\<lparr>ak_active := False\<rparr> else r)
                                 (apiKeys d)\<rparr>)"
    and "PgStorage_updateApiKeyLastUsed now d i =
           Inr (d\<lparr>apiKeys := map (\<lambda>r. if ak_id r = i then r\<lparr>ak_lastUsed := Some now\<rparr> else r)
                                 (apiKeys d)\<rparr>)"
  using assms
  by (simp_all add: PgStorage_getApiKeyById_def PgStorage_getApiKeysByUserId_def
        PgStorage_validateApiKey_find PgStorage_deactivateApiKey_def
        PgStorage_updateApiKeyLastUsed_def await_def select_where_def first_row_filter
        first_row_returning update_set_where_def Let_def)

lemma PgStorage_integrations:
  assumes "fault d = None"
  shows "PgStorage_getIntegrationsByAgentId d s =
           Inr (filter (\<lambda>r. ai_agentId r = s) (agentIntegrations d))"
    and "PgStorage_getIntegrationsByApiKeyId d i =
           Inr (filter (\<lambda>r. ai_apiKeyId r = i) (agentIntegrations d))"
    and "PgStorage_deactivateIntegration now d i =
           Inr (map_option (\<lambda>r. r\<lparr>ai_active := False, ai_updatedAt := now\<rparr>)
                  (List.find (\<lambda>r. ai_id r = i) (agentIntegrations d)),
                d\<lparr>agentIntegrations :=
                    map (\<lambda>r. if ai_id r = i then r\<lparr>ai_active := False, ai_updatedAt := now\<rparr>
                              else r)
                      (agentIntegrations d)\<rparr>)"
  using assms
  by (simp_all add: PgStorage_getIntegrationsByAgentId_def PgStorage_getIntegrationsByApiKeyId_def
        PgStorage_deactivateIntegration_def await_def select_where_def first_row_returning
        update_set_where_def Let_def)

lemma PgStorage_usage_and_tixae:
  assumes "fault d = None"
  shows "PgStorage_getApiUsageByKeyId d i = Inr (filter (\<lambda>r. au_apiKeyId r = i) (apiUsage d))"
    and "PgStorage_getTixaeApiEndpoints d = Inr (tixaeApiEndpoints d)"
    and "PgStorage_getTixaeApiEndpoint d i =
           Inr (List.find (\<lambda>r. te_id r = i) (tixaeApiEndpoints d))"
    and "PgStorage_getTixaeApiEndpointByName d s =
           Inr (List.find (\<lambda>r. te_name r = s) (tixaeApiEndpoints d))"
    and "PgStorage_getTixaeAgentTemplates d = Inr (tixaeAgentTemplates d)"
    and "PgStorage_getTixaeAgentTemplate d i =
           Inr (List.find (\<lambda>r. tt_id r = i) (tixaeAgentTemplates d))"
    and "PgStorage_getTixaeAgentTemplateByName d s =
           Inr (List.find (\<lambda>r. tt_name r = s) (tixaeAgentTemplates d))"
  using assms
  by (simp_all add: PgStorage_getApiUsageByKeyId_def PgStorage_getTixaeApiEndpoints_def
        PgStorage_getTixaeApiEndpoint_def PgStorage_getTixaeApiEndpointByName_def
        PgStorage_getTixaeAgentTemplates_def PgStorage_getTixaeAgentTemplate_def
        PgStorage_getTixaeAgentTemplateByName_def await_def select_where_def first_row_filter)

text \<open>
  C9 (amended). While the store answers, every single-row getter yields the first row that
  satisfies its equality filter, or undefined when there is none; every update yields the
  first row it changed, or undefined; every list getter yields the rows that satisfy
  its equality filter, or all rows, in the store's order. The one exception is
  \<open>getBlogPosts\<close>: it yields all blog posts ordered by \<open>publishDate\<close>, latest first.
\<close>

theorem storage_queries:
  assumes "fault d = None"
  shows
   "PgStorage_getPortfolioItems d = Inr (portfolioItems d) \<and>
    PgStorage_getPortfolioItem d i = Inr (List.find (\<lambda>r. pi_id r = i) (portfolioItems d)) \<and>
    (\<exists>posts. PgStorage_getBlogPosts d = Inr posts \<and>
       mset posts = mset (blogPosts d) \<and>
       sorted_wrt (\<lambda>a b. bp_publishDate b \<le> bp_publishDate a) posts) \<and>
    PgStorage_getBlogPost d i = Inr (List.find (\<lambda>r. bp_id r = i) (blogPosts d)) \<and>
    PgStorage_getAgentById d s = Inr (List.find (\<lambda>r. ag_agentId r = s) (agents d)) \<and>
    PgStorage_getAgentsByUserId d s = Inr (filter (\<lambda>r. ag_userId r = s) (agents d)) \<and>
    PgStorage_updateAgentStatus now d s st =
      Inr (map_option (\<lambda>r. r\<lparr>ag_status := st, ag_updatedAt := now\<rparr>)
             (List.find (\<lambda>r. ag_agentId r = s) (agents d)),
           d\<lparr>agents := map (\<lambda>r. if ag_agentId r = s
                                 then r\<lparr>ag_status := st, ag_updatedAt := now\<rparr> else r)
                           (agents d)\<rparr>) \<and>
    PgStorage_getApiKeyById d i = Inr (List.find (\<lambda>r. ak_id r = i) (apiKeys d)) \<and>
    PgStorage_getApiKeysByUserId d s = Inr (filter (\<lambda>r. ak_userId r = s) (apiKeys d)) \<and>
    PgStorage_validateApiKey d s =
      Inr (List.find (\<lambda>r. ak_key r = s \<and> ak_active r) (apiKeys d)) \<and>
    PgStorage_deactivateApiKey d i =
      Inr (map_option (\<lambda>r. r\<lparr>ak_active := False\<rparr>)
             (List.find (\<lambda>r. ak_id r = i) (apiKeys d)),
           d\<lparr>apiKeys := map (\<lambda>r. if ak_id r = i then r\<lparr>ak_active := False\<rparr> else r)
                            (apiKeys d)\<rparr>) \<and>
    PgStorage_updateApiKeyLastUsed now d i =
      Inr (d\<lparr>apiKeys := map (\<lambda>r. if ak_id r = i then r\<lparr>ak_lastUsed := Some now\<rparr> else r)
                            (apiKeys d)\<rparr>) \<and>
    PgStorage_getIntegrationsByAgentId d s =
      Inr (filter (\<lambda>r. ai_agentId r = s) (agentIntegrations d)) \<and>
    PgStorage_getIntegrationsByApiKeyId d i =
      Inr (filter (\<lambda>r. ai_apiKeyId r = i) (agentIntegrations d)) \<and>
    PgStorage_deactivateIntegration now d i =
      Inr (map_option (\<lambda>r. r\<lparr>ai_active := False, ai_updatedAt := now\<rparr>)
             (List.find (\<lambda>r. ai_id r = i) (agentIntegrations d)),
           d\<lparr>agentIntegrations :=
               map (\<lambda>r. if ai_id r = i then r\<lparr>ai_active := False, ai_updatedAt := now\<rparr>
                         else r)
                 (agentIntegrations d)\<rparr>) \<and>
    PgStorage_getApiUsageByKeyId d i = Inr (filter (\<lambda>r. au_apiKeyId r = i) (apiUsage d)) \<and>
    PgStorage_getTixaeApiEndpoints d = Inr (tixaeApiEndpoints d) \<and>
    PgStorage_getTixaeApiEndpoint d i =
      Inr (List.find (\<lambda>r. te_id r = i) (tixaeApiEndpoints d)) \<and>
    PgStorage_getTixaeApiEndpointByName d s =
      Inr (List.find (\<lambda>r. te_name r = s) (tixaeApiEndpoints d)) \<and>
    PgStorage_getTixaeAgentTemplates d = Inr (tixaeAgentTemplates d) \<and>
    PgStorage_getTixaeAgentTemplate d i =
      Inr (List.find (\<lambda>r. tt_id r = i) (tixaeAgentTemplates d)) \<and>
    PgStorage_getTixaeAgentTemplateByName d s =
      Inr (List.find (\<lambda>r. tt_name r = s) (tixaeAgentTemplates d))"
proof -
  have blog: "\<exists>posts. PgStorage_getBlogPosts d = Inr posts \<and>
       mset posts = mset (blogPosts d) \<and>
       sorted_wrt (\<lambda>a b. bp_publishDate b \<le> bp_publishDate a) posts"
    using PgStorage_blog(1) [OF assms] order_by_desc_mset order_by_desc_sorted
    by (intro exI [of _ "order_by_desc bp_publishDate (blogPosts d)"] conjI)
  show ?thesis
    by (intro conjI blog PgStorage_portfolio [OF assms] PgStorage_blog(2) [OF assms]
          PgStorage_agents [OF assms] PgStorage_keys [OF assms]
          PgStorage_integrations [OF assms] PgStorage_usage_and_tixae [OF assms])
qed

theorem storage_queries_witness:
  "fault db1 = None \<and>
   PgStorage_getApiKeyById db1 2 = Inr (Some key2) \<and>
   PgStorage_getPortfolioItem db1 2 = Inr None \<and>
   PgStorage_getIntegrationsByApiKeyId db1 2 = Inr []"
proof -
  have f: "fault db1 = None"
    by (simp add: db1_def)
  note q = storage_queries [OF f, of 2 "''u1''" 0 "''paused''"]
  from q have "PgStorage_getApiKeyById db1 2 = Inr (List.find (\<lambda>r. ak_id r = 2) (apiKeys db1))"
    by (elim conjE)
  then have a: "PgStorage_getApiKeyById db1 2 = Inr (Some key2)"
    by (simp add: db1_def key1_def key2_def)
  from q have "PgStorage_getPortfolioItem db1 2 =
                 Inr (List.find (\<lambda>r. pi_id r = 2) (portfolioItems db1))"
    by (elim conjE)
  then have b: "PgStorage_getPortfolioItem db1 2 = Inr None"
    by (simp add: db1_def)
  from q have "PgStorage_getIntegrationsByApiKeyId db1 2 =
                 Inr (filter (\<lambda>r. ai_apiKeyId r = 2) (agentIntegrations db1))"
    by (elim conjE)
  then have c: "PgStorage_getIntegrationsByApiKeyId db1 2 = Inr []"
    by (simp add: db1_def integration1_def integration2_def)
  from f a b c show ?thesis
    by (intro conjI)
qed

text \<open>
  The specification allows no ordering beyond the store's own. \<open>getBlogPosts\<close> turns the
  stored order of the two example posts around.
\<close>

theorem getBlogPosts_reorders:
  "blogPosts db1 = [post1, post2] \<and>
   PgStorage_getBlogPosts db1 = Inr [post2, post1] \<and>
   PgStorage_getBlogPosts db1 \<noteq> Inr (blogPosts db1)"
proof -
  have t: "blogPosts db1 = [post1, post2]" and f: "fault db1 = None"
    by (simp_all add: db1_def)
  have d: "bp_publishDate post1 = 100" "bp_publishDate post2 = 200"
    by (simp_all add: post1_def post2_def)
  have ne: "post1 \<noteq> post2"
    by (simp add: post1_def post2_def)
  have "order_by_desc bp_publishDate [post1, post2] = [post2, post1]"
    by (simp add: order_by_desc_def d)
  with t f have r: "PgStorage_getBlogPosts db1 = Inr [post2, post1]"
    by (simp add: PgStorage_getBlogPosts_def await_def)
  from t r ne show ?thesis
    by simp
qed


text \<open>
  C10. While the store answers, \<open>deactivateApiKey(id)\<close> sets \<open>active\<close> to false in the key
  rows with that id and changes nothing else: every other column of those rows, every
  other row, and every other table stay as they were. It yields the first changed row,
  or undefined, with the whole store unchanged, when no key has that id.
\<close>

theorem deactivateApiKey_frame:
  assumes "fault d = None"
  shows "\<exists>r d'. PgStorage_deactivateApiKey d i = Inr (r, d') \<and>
     r = map_option (\<lambda>k. k\<lparr>ak_active := False\<rparr>) (List.find (\<lambda>k. ak_id k = i) (apiKeys d)) \<and>
     (\<forall>k. r = Some k \<longrightarrow> ak_id k = i \<and> \<not> ak_active k) \<and>
     length (apiKeys d') = length (apiKeys d) \<and>
     (\<forall>j < length (apiKeys d).
        (ak_id (apiKeys d ! j) = i \<longrightarrow>
           apiKeys d' ! j = (apiKeys d ! j)\<lparr>ak_active := False\<rparr>) \<and>
        (ak_id (apiKeys d ! j) \<noteq> i \<longrightarrow> apiKeys d' ! j = apiKeys d ! j) \<and>
        ak_id (apiKeys d' ! j) = ak_id (apiKeys d ! j) \<and>
        ak_key (apiKeys d' ! j) = ak_key (apiKeys d ! j) \<and>
        ak_userId (apiKeys d' ! j) = ak_userId (apiKeys d ! j) \<and>
        ak_lastUsed (apiKeys d' ! j) = ak_lastUsed (apiKeys d ! j) \<and>
        ak_rest (apiKeys d' ! j) = ak_rest (apiKeys d ! j)) \<and>
     d'\<lparr>apiKeys := apiKeys d\<rparr> = d \<and>
     ((\<forall>k \<in> set (apiKeys d). ak_id k \<noteq> i) \<longrightarrow> r = None \<and> d' = d)"
proof -
  let ?f = "\<lambda>k. if ak_id k = i then k\<lparr>ak_active := False\<rparr> else k"
  let ?r = "map_option (\<lambda>k. k\<lparr>ak_active := False\<rparr>) (List.find (\<lambda>k. ak_id k = i) (apiKeys d))"
  let ?d = "d\<lparr>apiKeys := map ?f (apiKeys d)\<rparr>"
  have run: "PgStorage_deactivateApiKey d i = Inr (?r, ?d)"
    by (rule PgStorage_keys(4) [OF assms])
  have ret: "\<forall>k. ?r = Some k \<longrightarrow> ak_id k = i \<and> \<not> ak_active k"
    by (auto simp: find_Some_iff)
  have rows: "\<forall>j < length (apiKeys d).
        (ak_id (apiKeys d ! j) = i \<longrightarrow>
           apiKeys ?d ! j = (apiKeys d ! j)\<lparr>ak_active := False\<rparr>) \<and>
        (ak_id (apiKeys d ! j) \<noteq> i \<longrightarrow> apiKeys ?d ! j = apiKeys d ! j) \<and>
        ak_id (apiKeys ?d ! j) = ak_id (apiKeys d ! j) \<and>
        ak_key (apiKeys ?d ! j) = ak_key (apiKeys d ! j) \<and>
        ak_userId (apiKeys ?d ! j) = ak_userId (apiKeys d ! j) \<and>
        ak_lastUsed (apiKeys ?d ! j) = ak_lastUsed (apiKeys d ! j) \<and>
        ak_rest (apiKeys ?d ! j) = ak_rest (apiKeys d ! j)"
    by simp
  have none: "(\<forall>k \<in> set (apiKeys d). ak_id k \<noteq> i) \<longrightarrow> ?r = None \<and> ?d = d"
  proof
    assume a: "\<forall>k \<in> set (apiKeys d). ak_id k \<noteq> i"
    then have "map ?f (apiKeys d) = apiKeys d"
      by (simp add: map_idI)
    moreover from a have "List.find (\<lambda>k. ak_id k = i) (apiKeys d) = None"
      by (simp add: find_None_iff)
    ultimately show "?r = None \<and> ?d = d"
      by simp
  qed
  have frame: "?d\<lparr>apiKeys := apiKeys d\<rparr> = d" and len: "length (apiKeys ?d) = length (apiKeys d)"
    by simp_all
  show ?thesis
    by (intro exI [of _ ?r] exI [of _ ?d] conjI run refl ret len rows frame none)
qed

theorem deactivateApiKey_frame_witness:
  "fault db1 = None \<and>
   (\<exists>d'. PgStorage_deactivateApiKey db1 1 = Inr (Some (key1\<lparr>ak_active := False\<rparr>), d') \<and>
         apiKeys d' ! 0 = key1\<lparr>ak_active := False\<rparr> \<and>
         apiKeys d' ! 1 = key2 \<and>
         length (apiKeys d') = 2)"
proof -
  have f: "fault db1 = None"
    by (simp add: db1_def)
  have keys: "apiKeys db1 = [key1, key2]" "ak_id key1 = 1" "ak_id key2 = 2"
    by (simp_all add: db1_def key1_def key2_def)
  from deactivateApiKey_frame [OF f, of 1] obtain r d' where
    all: "PgStorage_deactivateApiKey db1 1 = Inr (r, d') \<and>
     r = map_option (\<lambda>k. k\<lparr>ak_active := False\<rparr>) (List.find (\<lambda>k. ak_id k = 1) (apiKeys db1)) \<and>
     (\<forall>k. r = Some k \<longrightarrow> ak_id k = 1 \<and> \<not> ak_active k) \<and>
     length (apiKeys d') = length (apiKeys db1) \<and>
     (\<forall>j < length (apiKeys db1).
        (ak_id (apiKeys db1 ! j) = 1 \<longrightarrow>
           apiKeys d' ! j = (apiKeys db1 ! j)\<lparr>ak_active := False\<rparr>) \<and>
        (ak_id (apiKeys db1 ! j) \<noteq> 1 \<longrightarrow> apiKeys d' ! j = apiKeys db1 ! j) \<and>
        ak_id (apiKeys d' ! j) = ak_id (apiKeys db1 ! j) \<and>
        ak_key (apiKeys d' ! j) = ak_key (apiKeys db1 ! j) \<and>
        ak_userId (apiKeys d' ! j) = ak_userId (apiKeys db1 ! j) \<and>
        ak_lastUsed (apiKeys d' ! j) = ak_lastUsed (apiKeys db1 ! j) \<and>
        ak_rest (apiKeys d' ! j) = ak_rest (apiKeys db1 ! j)) \<and>
     d'\<lparr>apiKeys := apiKeys db1\<rparr> = db1 \<and>
     ((\<forall>k \<in> set (apiKeys db1). ak_id k \<noteq> 1) \<longrightarrow> r = None \<and> d' = db1)"
    by (elim exE)
  from all have run: "PgStorage_deactivateApiKey db1 1 = Inr (r, d')"
    by (elim conjE)
  from all have "r = map_option (\<lambda>k. k\<lparr>ak_active := False\<rparr>)
                      (List.find (\<lambda>k. ak_id k = 1) (apiKeys db1))"
    by (elim conjE)
  with keys have r': "r = Some (key1\<lparr>ak_active := False\<rparr>)"
    by simp
  from all have "length (apiKeys d') = length (apiKeys db1)"
    by (elim conjE)
  with keys have l: "length (apiKeys d') = 2"
    by simp
  from all have rows: "\<forall>j < length (apiKeys db1).
        (ak_id (apiKeys db1 ! j) = 1 \<longrightarrow>
           apiKeys d' ! j = (apiKeys db1 ! j)\<lparr>ak_active := False\<rparr>) \<and>
        (ak_id (apiKeys db1 ! j) \<noteq> 1 \<longrightarrow> apiKeys d' ! j = apiKeys db1 ! j) \<and>
        ak_id (apiKeys d' ! j) = ak_id (apiKeys db1 ! j) \<and>
        ak_key (apiKeys d' ! j) = ak_key (apiKeys db1 ! j) \<and>
        ak_userId (apiKeys d' ! j) = ak_userId (apiKeys db1 ! j) \<and>
        ak_lastUsed (apiKeys d' ! j) = ak_lastUsed (apiKeys db1 ! j) \<and>
        ak_rest (apiKeys d' ! j) = ak_rest (apiKeys db1 ! j)"
    by (elim conjE)
  from rows [THEN spec, of 0] keys have r0: "apiKeys d' ! 0 = key1\<lparr>ak_active := False\<rparr>"
    by simp
  from rows [THEN spec, of 1] keys have r1: "apiKeys d' ! 1 = key2"
    by simp
  from run r' r0 r1 l have "\<exists>d'. PgStorage_deactivateApiKey db1 1 =
           Inr (Some (key1\<lparr>ak_active := False\<rparr>), d') \<and>
         apiKeys d' ! 0 = key1\<lparr>ak_active := False\<rparr> \<and>
         apiKeys d' ! 1 = key2 \<and>
         length (apiKeys d') = 2"
    by (intro exI [of _ d']) simp
  with f show ?thesis
    by (intro conjI)
qed

end
